theory Spec2Isabelle
  imports Main
begin

section \<open>Errors and asynchronous results\<close>

text \<open>
  Every \<^verbatim>\<open>async\<close> function of the source either resolves with a value or rejects with
  an error. A rejected promise (a thrown exception) is the left injection.
\<close>

datatype error = IOError | ParseError | ConfigError | GitError | RegExpError
  | ComponentAnalysisError error

type_synonym 'a result = "error + 'a"

definition await :: "'a result \<Rightarrow> ('a \<Rightarrow> 'b result) \<Rightarrow> 'b result" where
  "await m k = (case m of Inl e \<Rightarrow> Inl e | Inr v \<Rightarrow> k v)"

definition try_catch :: "'a result \<Rightarrow> (error \<Rightarrow> 'a result) \<Rightarrow> 'a result" where
  "try_catch body handler = (case body of Inl e \<Rightarrow> handler e | Inr v \<Rightarrow> Inr v)"

section \<open>Data model of the cache manager (core/cache-manager.ts)\<close>

record PropMeta =
  propName :: string
  propType :: string
  required :: bool
  description :: "string option"
  defaultValue :: "string option"

record ComponentStructure =
  structName :: string
  structProps :: "PropMeta list"

record DependencyCache =
  path :: string
  hash :: string
  mtime :: int

record CacheEntry =
  fileHash :: string
  dependencies :: "DependencyCache list"
  "structure" :: ComponentStructure
  lastParsed :: int
  version :: string

text \<open>
  What ts-morph hands back for one source file, as far as the code looks at it:
  the keys of \<^verbatim>\<open>getExportedDeclarations()\<close> in the Map's iteration order; for every
  import declaration the path of \<^verbatim>\<open>getModuleSpecifierSourceFile()\<close>, \<open>None\<close> when the
  specifier resolves to no source file; the interfaces with their property signatures;
  and the numbers of JSDoc blocks on functions and variable statements. For a property
  signature, \<open>jsDocs\<close> holds one string per JSDoc block of \<^verbatim>\<open>getJsDocs()\<close>: the text that
  \<^verbatim>\<open>getDescription().trim()\<close> gives for the block.
\<close>

record PropertySignature =
  sigName :: string
  sigTypeText :: string
  hasQuestionToken :: bool
  jsDocs :: "string list"

record InterfaceDeclaration =
  ifaceName :: string
  properties :: "PropertySignature list"

record SourceFile =
  exportedDeclarations :: "string list"
  importDeclarations :: "string option list"
  interfaces :: "InterfaceDeclaration list"
  functionJsDocs :: "nat list"
  variableStatementJsDocs :: "nat list"

record ComponentMeta =
  name :: string
  filePath :: string
  props :: "PropMeta list"
  metaDependencies :: "string list"
  hasJSDoc :: bool

text \<open>
  The world the code runs in. Times are milliseconds since the epoch
  (\<^verbatim>\<open>stats.mtimeMs\<close>, \<^verbatim>\<open>Date.getTime()\<close>); fractions of a millisecond are not modelled.
  \<^item> \<open>files\<close>: \<^verbatim>\<open>fs.readFile(p)\<close>, \<open>None\<close> when it rejects;
  \<^item> \<open>mtimes\<close>: \<^verbatim>\<open>(await fs.stat(p)).mtimeMs\<close>, \<open>None\<close> when \<^verbatim>\<open>fs.stat\<close> rejects;
  \<^item> \<open>cacheStore\<close>: for a path under the cache directory, the entry that
    \<^verbatim>\<open>JSON.parse(await fs.readFile(cacheFile))\<close> yields, \<open>None\<close> when the read or the
    parse throws (the cache directory is kept apart from the source files);
  \<^item> \<open>cacheWritable\<close>: \<^verbatim>\<open>fs.mkdir(cacheDir)\<close> and \<^verbatim>\<open>fs.writeFile(cacheFile)\<close> succeed;
  \<^item> \<open>clock\<close>: \<^verbatim>\<open>new Date().getTime()\<close>;
  \<^item> \<open>project\<close>: the cache manager's ts-morph project,
    \<^verbatim>\<open>getSourceFile(p) || addSourceFileAtPath(p)\<close>, \<open>None\<close> when it throws;
  \<^item> \<open>sha256\<close>: \<^verbatim>\<open>crypto.createHash('sha256').update(x).digest('hex')\<close>;
  \<^item> the remaining fields are the collaborators of the pre-commit handler and of the
    sync command: the component analyzer's own project, the configuration loader
    (the watch patterns, \<open>None\<close> when \<^verbatim>\<open>loadOrThrow\<close> throws), \<^verbatim>\<open>git diff --cached\<close>,
    \<^verbatim>\<open>new RegExp(src).test(s)\<close> (\<open>None\<close> when the constructor throws), the tsconfig
    that \<^verbatim>\<open>new Project\<close> reads, \<^verbatim>\<open>DocGenerator.generate(component, useAI)\<close> (the
    markdown, \<open>None\<close> when the template engine throws), which
    paths \<^verbatim>\<open>fs.mkdir\<close>/\<^verbatim>\<open>fs.writeFile\<close> can write, and whether \<^verbatim>\<open>git add\<close> succeeds.

  The clock stands still while one call or one run executes. What the two projects
  answer for a path is given by the world and is not changed by the files a run writes
  (the generated README files are no TypeScript sources); the source files that a
  project keeps in memory are not modelled beyond that. Directories are not modelled.
\<close>

record world =
  files :: "string \<Rightarrow> string option"
  mtimes :: "string \<Rightarrow> int option"
  cacheStore :: "string \<Rightarrow> CacheEntry option"
  cacheWritable :: bool
  clock :: int
  project :: "string \<Rightarrow> SourceFile option"
  sha256 :: "string \<Rightarrow> string"
  analyzerProject :: "string \<Rightarrow> SourceFile option"
  configWatchPatterns :: "string list option"
  gitStagedFiles :: "string list option"
  regExpTest :: "string \<Rightarrow> string \<Rightarrow> bool option"
  tsconfigLoads :: bool
  docGenerate :: "ComponentMeta \<Rightarrow> bool \<Rightarrow> string option"
  writable :: "string \<Rightarrow> bool"
  gitAdd :: "string \<Rightarrow> bool"

definition fs_readFile :: "world \<Rightarrow> string \<Rightarrow> string result" where
  "fs_readFile w p = (case files w p of None \<Rightarrow> Inl IOError | Some content \<Rightarrow> Inr content)"

definition fs_stat :: "world \<Rightarrow> string \<Rightarrow> int result" where
  "fs_stat w p = (case mtimes w p of None \<Rightarrow> Inl IOError | Some m \<Rightarrow> Inr m)"

definition getOrAddSourceFile :: "(string \<Rightarrow> SourceFile option) \<Rightarrow> string \<Rightarrow> SourceFile result" where
  "getOrAddSourceFile proj p = (case proj p of None \<Rightarrow> Inl ParseError | Some sf \<Rightarrow> Inr sf)"

section \<open>String helpers of JavaScript and node:path (POSIX)\<close>

text \<open>\<^verbatim>\<open>s.includes(sub)\<close>: \<open>sub\<close> occurs in \<open>s\<close> as a contiguous substring.\<close>

fun str_includes :: "string \<Rightarrow> string \<Rightarrow> bool" where
  "str_includes [] sub = (sub = [])"
| "str_includes (c # cs) sub = (take (length sub) (c # cs) = sub \<or> str_includes cs sub)"

definition endsWith :: "string \<Rightarrow> string \<Rightarrow> bool" where
  "endsWith s suf = (length suf \<le> length s \<and> drop (length s - length suf) s = suf)"

definition isSlash :: "char \<Rightarrow> bool" where
  "isSlash c = (c = CHR ''/'')"

text \<open>\<^verbatim>\<open>path.basename(p)\<close>: trailing slashes are ignored, then the part after the last slash.\<close>

definition basename :: "string \<Rightarrow> string" where
  "basename p = rev (takeWhile (\<lambda>c. \<not> isSlash c) (dropWhile isSlash (rev p)))"

text \<open>
  \<^verbatim>\<open>path.dirname(p)\<close>: the scan runs from the last character down to index 1; it stops at
  the first slash that follows (from the right) a character that is no slash.
\<close>

fun dirnameEnd :: "string \<Rightarrow> nat \<Rightarrow> bool \<Rightarrow> nat option" where
  "dirnameEnd p 0 matchedSlash = None"
| "dirnameEnd p (Suc i) matchedSlash =
     (if isSlash (p ! Suc i)
      then (if \<not> matchedSlash then Some (Suc i) else dirnameEnd p i matchedSlash)
      else dirnameEnd p i False)"

definition dirname :: "string \<Rightarrow> string" where
  "dirname p =
     (if p = [] then ''.''
      else let hasRoot = isSlash (hd p) in
        (case dirnameEnd p (length p - 1) True of
           None \<Rightarrow> (if hasRoot then ''/'' else ''.'')
         | Some e \<Rightarrow> (if hasRoot \<and> e = 1 then ''//'' else take e p)))"

text \<open>
  \<^verbatim>\<open>path.join(a, b)\<close>: the non-empty arguments joined by a slash, then normalised:
  empty and \<^verbatim>\<open>.\<close> segments go, \<^verbatim>\<open>..\<close> removes the segment before it (it is kept when a
  relative path has nothing left to remove, dropped at the root), a trailing slash stays.
\<close>

fun splitSlash :: "string \<Rightarrow> string \<Rightarrow> string list" where
  "splitSlash [] cur = [rev cur]"
| "splitSlash (c # cs) cur = (if isSlash c then rev cur # splitSlash cs [] else splitSlash cs (c # cur))"

fun normalizeSegments :: "bool \<Rightarrow> string list \<Rightarrow> string list \<Rightarrow> string list" where
  "normalizeSegments allowAboveRoot [] acc = rev acc"
| "normalizeSegments allowAboveRoot (seg # segs) acc =
     (if seg = [] \<or> seg = ''.'' then normalizeSegments allowAboveRoot segs acc
      else if seg = ''..'' then
        (case acc of
           [] \<Rightarrow> normalizeSegments allowAboveRoot segs (if allowAboveRoot then [seg] else [])
         | lastSeg # below \<Rightarrow>
             if lastSeg = ''..'' then normalizeSegments allowAboveRoot segs (seg # acc)
             else normalizeSegments allowAboveRoot segs below)
      else normalizeSegments allowAboveRoot segs (seg # acc))"

fun joinSlash :: "string list \<Rightarrow> string" where
  "joinSlash [] = []"
| "joinSlash [s] = s"
| "joinSlash (s # t # rest) = s @ ''/'' @ joinSlash (t # rest)"

definition normalize :: "string \<Rightarrow> string" where
  "normalize p =
     (if p = [] then ''.''
      else let isAbsolute = isSlash (hd p);
               trailingSeparator = isSlash (last p);
               q = joinSlash (normalizeSegments (\<not> isAbsolute) (splitSlash p []) [])
           in if q = [] then (if isAbsolute then ''/'' else if trailingSeparator then ''./'' else ''.'')
              else (if isAbsolute then ''/'' else []) @ q @ (if trailingSeparator then ''/'' else []))"

definition join :: "string \<Rightarrow> string \<Rightarrow> string" where
  "join a b =
     (if a = [] \<and> b = [] then ''.''
      else if a = [] then normalize b
      else if b = [] then normalize a
      else normalize (a @ ''/'' @ b))"

section \<open>DependencyAwareCacheManager\<close>

definition cacheDir :: string where
  "cacheDir = ''.anchor/cache''"

definition runningVersion :: string where
  "runningVersion = ''1.0.0''"

definition getCacheFilePath :: "world \<Rightarrow> string \<Rightarrow> string" where
  "getCacheFilePath w fp = join cacheDir (sha256 w fp @ ''.json'')"

text \<open>\<^verbatim>\<open>hashFile\<close>: the read is inside a try; the catch logs and returns the empty string.\<close>

definition hashFile :: "world \<Rightarrow> string \<Rightarrow> string result" where
  "hashFile w fp =
     try_catch (await (fs_readFile w fp) (\<lambda>content. Inr (sha256 w content)))
               (\<lambda>err. Inr [])"

text \<open>\<^verbatim>\<open>loadCache\<close>: a missing or unparsable cache file, and an entry of another version, give null.\<close>

definition readCacheFile :: "world \<Rightarrow> string \<Rightarrow> CacheEntry result" where
  "readCacheFile w cacheFile = (case cacheStore w cacheFile of None \<Rightarrow> Inl IOError | Some c \<Rightarrow> Inr c)"

definition loadCache :: "world \<Rightarrow> string \<Rightarrow> CacheEntry option result" where
  "loadCache w fp =
     try_catch (await (readCacheFile w (getCacheFilePath w fp))
                  (\<lambda>cache. if version cache \<noteq> runningVersion then Inr None else Inr (Some cache)))
               (\<lambda>err. Inr None)"

definition isLocalPath :: "string \<Rightarrow> bool" where
  "isLocalPath p = (\<not> str_includes p ''node_modules'' \<and> \<not> str_includes p ''@types'')"

fun collectImports :: "string option list \<Rightarrow> string list" where
  "collectImports [] = []"
| "collectImports (None # rest) = collectImports rest"
| "collectImports (Some p # rest) =
     (if isLocalPath p then p # collectImports rest else collectImports rest)"

text \<open>\<^verbatim>\<open>extractImports\<close>: everything is inside a try; the catch logs and returns the empty list.\<close>

definition extractImports :: "world \<Rightarrow> string \<Rightarrow> string list result" where
  "extractImports w fp =
     try_catch (await (getOrAddSourceFile (project w) fp)
                  (\<lambda>sourceFile. Inr (collectImports (importDeclarations sourceFile))))
               (\<lambda>err. Inr [])"

text \<open>
  The loop of \<^verbatim>\<open>needsUpdate\<close> over the imports: \<open>Inr True\<close> is the early
  \<^verbatim>\<open>return true\<close>, \<open>Inr False\<close> is the loop running to its end.
\<close>

fun checkImports :: "world \<Rightarrow> CacheEntry \<Rightarrow> string list \<Rightarrow> bool result" where
  "checkImports w cache [] = Inr False"
| "checkImports w cache (imp # rest) =
     (case mtimes w imp of
        None \<Rightarrow> checkImports w cache rest
      | Some m \<Rightarrow>
          (if find (\<lambda>d. path d = imp) (dependencies cache) = None \<or> m > lastParsed cache
           then Inr True
           else checkImports w cache rest))"

definition needsUpdate :: "world \<Rightarrow> string \<Rightarrow> bool result" where
  "needsUpdate w fp =
     await (loadCache w fp) (\<lambda>cache.
       case cache of
         None \<Rightarrow> Inr True
       | Some c \<Rightarrow>
           await (hashFile w fp) (\<lambda>currentHash.
             if currentHash \<noteq> fileHash c then Inr True
             else try_catch
                    (await (extractImports w fp) (\<lambda>imports. checkImports w c imports))
                    (\<lambda>err. Inr True)))"

text \<open>
  \<^verbatim>\<open>saveCache\<close>: \<^verbatim>\<open>Promise.all\<close> over the imports rejects as soon as one \<^verbatim>\<open>fs.stat\<close>
  rejects; the whole body is inside a try whose catch only logs, so a failure leaves
  the cache as it was.
\<close>

fun snapshotDependencies :: "world \<Rightarrow> string list \<Rightarrow> DependencyCache list result" where
  "snapshotDependencies w [] = Inr []"
| "snapshotDependencies w (imp # rest) =
     await (fs_stat w imp) (\<lambda>m.
       await (hashFile w imp) (\<lambda>h.
         await (snapshotDependencies w rest) (\<lambda>ds.
           Inr (\<lparr>path = imp, hash = h, mtime = m\<rparr> # ds))))"

definition fs_mkdirCache :: "world \<Rightarrow> unit result" where
  "fs_mkdirCache w = (if cacheWritable w then Inr () else Inl IOError)"

definition fs_writeCacheFile :: "world \<Rightarrow> string \<Rightarrow> CacheEntry \<Rightarrow> world result" where
  "fs_writeCacheFile w cacheFile entry =
     (if cacheWritable w then Inr (w\<lparr>cacheStore := (cacheStore w)(cacheFile := Some entry)\<rparr>)
      else Inl IOError)"

definition saveCacheBody :: "world \<Rightarrow> string \<Rightarrow> ComponentStructure \<Rightarrow> world result" where
  "saveCacheBody w fp struct =
     await (fs_mkdirCache w) (\<lambda>u.
       await (extractImports w fp) (\<lambda>imports.
         await (snapshotDependencies w imports) (\<lambda>deps.
           await (hashFile w fp) (\<lambda>h.
             fs_writeCacheFile w (getCacheFilePath w fp)
               \<lparr>fileHash = h, dependencies = deps, structure = struct,
                lastParsed = clock w, version = runningVersion\<rparr>))))"

definition saveCache :: "world \<Rightarrow> string \<Rightarrow> ComponentStructure \<Rightarrow> world" where
  "saveCache w fp struct = (case saveCacheBody w fp struct of Inl err \<Rightarrow> w | Inr w' \<Rightarrow> w')"


section \<open>ComponentAnalyzer (analyzers/component-analyzer.ts)\<close>

text \<open>\<^verbatim>\<open>/^[A-Z]/.test(name)\<close>: the first character is one of the letters A to Z.\<close>

definition startsWithUpper :: "string \<Rightarrow> bool" where
  "startsWithUpper n =
     (case n of [] \<Rightarrow> False | c # cs \<Rightarrow> (65::nat) \<le> of_char c \<and> of_char c \<le> (90::nat))"

text \<open>
  \<^verbatim>\<open>s.replace(/\.(tsx?|jsx?)$/, '')\<close>: the pattern is anchored at the end of the string,
  so it matches at most one of the four suffixes.
\<close>

definition stripSourceExtension :: "string \<Rightarrow> string" where
  "stripSourceExtension s =
     (if endsWith s ''.tsx'' then take (length s - 4) s
      else if endsWith s ''.jsx'' then take (length s - 4) s
      else if endsWith s ''.ts'' then take (length s - 3) s
      else if endsWith s ''.js'' then take (length s - 3) s
      else s)"

fun firstComponentExport :: "string list \<Rightarrow> string option" where
  "firstComponentExport [] = None"
| "firstComponentExport (n # rest) =
     (if n = ''default'' then firstComponentExport rest
      else if startsWithUpper n then Some n
      else firstComponentExport rest)"

definition extractComponentName :: "SourceFile \<Rightarrow> string \<Rightarrow> string" where
  "extractComponentName sourceFile fp =
     (case firstComponentExport (exportedDeclarations sourceFile) of
        Some n \<Rightarrow> n
      | None \<Rightarrow> stripSourceExtension (basename fp))"

definition extractDefaultValue :: "PropertySignature \<Rightarrow> string option" where
  "extractDefaultValue prop = None"

definition propFromSignature :: "PropertySignature \<Rightarrow> PropMeta" where
  "propFromSignature prop =
     \<lparr>propName = sigName prop,
      propType = sigTypeText prop,
      required = (\<not> hasQuestionToken prop),
      description = (case jsDocs prop of [] \<Rightarrow> None | d # ds \<Rightarrow> Some d),
      defaultValue = extractDefaultValue prop\<rparr>"

definition extractPropsFromInterface :: "InterfaceDeclaration \<Rightarrow> PropMeta list" where
  "extractPropsFromInterface iface = map propFromSignature (properties iface)"

definition isPropsInterface :: "InterfaceDeclaration \<Rightarrow> bool" where
  "isPropsInterface iface = str_includes (ifaceName iface) ''Props''"

definition extractProps :: "SourceFile \<Rightarrow> PropMeta list" where
  "extractProps sourceFile =
     concat (map extractPropsFromInterface (filter isPropsInterface (interfaces sourceFile)))"

text \<open>
  \<^verbatim>\<open>extractDependencies\<close>: one entry per import declaration whose module specifier
  resolves to a source file outside \<^verbatim>\<open>node_modules\<close> and \<^verbatim>\<open>@types\<close>, in source order.
\<close>

fun extractDependencies :: "string option list \<Rightarrow> string list" where
  "extractDependencies [] = []"
| "extractDependencies (None # rest) = extractDependencies rest"
| "extractDependencies (Some fp # rest) =
     (if \<not> str_includes fp ''node_modules'' \<and> \<not> str_includes fp ''@types''
      then fp # extractDependencies rest
      else extractDependencies rest)"

definition hasJSDocumentation :: "SourceFile \<Rightarrow> bool" where
  "hasJSDocumentation sourceFile =
     ((\<exists>iface \<in> set (interfaces sourceFile).
          isPropsInterface iface \<and> (\<exists>prop \<in> set (properties iface). jsDocs prop \<noteq> []))
      \<or> (\<exists>n \<in> set (functionJsDocs sourceFile). n > 0)
      \<or> (\<exists>n \<in> set (variableStatementJsDocs sourceFile). n > 0))"

text \<open>\<^verbatim>\<open>analyze\<close>: whatever is thrown inside is rethrown as a \<^verbatim>\<open>ComponentAnalysisError\<close>.\<close>

definition analyze :: "world \<Rightarrow> string \<Rightarrow> ComponentMeta result" where
  "analyze w fp =
     try_catch
       (await (getOrAddSourceFile (analyzerProject w) fp) (\<lambda>sourceFile.
          Inr \<lparr>name = extractComponentName sourceFile fp,
               filePath = fp,
               props = extractProps sourceFile,
               metaDependencies = extractDependencies (importDeclarations sourceFile),
               hasJSDoc = hasJSDocumentation sourceFile\<rparr>))
       (\<lambda>err. Inl (ComponentAnalysisError err))"


section \<open>Effects: programs over a state\<close>

text \<open>
  Code that changes the world returns its result together with the state it leaves
  behind; the state survives a throw, so what was written before the throw stays written.
\<close>

type_synonym ('s, 'a) prog = "'s \<Rightarrow> 'a result \<times> 's"

definition pure_p :: "'a \<Rightarrow> ('s, 'a) prog" where
  "pure_p v = (\<lambda>s. (Inr v, s))"

definition bind_p :: "('s, 'a) prog \<Rightarrow> ('a \<Rightarrow> ('s, 'b) prog) \<Rightarrow> ('s, 'b) prog" where
  "bind_p m k = (\<lambda>s. case m s of (Inl e, s') \<Rightarrow> (Inl e, s') | (Inr v, s') \<Rightarrow> k v s')"

definition catch_p :: "('s, 'a) prog \<Rightarrow> (error \<Rightarrow> ('s, 'a) prog) \<Rightarrow> ('s, 'a) prog" where
  "catch_p m handler = (\<lambda>s. case m s of (Inl e, s') \<Rightarrow> handler e s' | (Inr v, s') \<Rightarrow> (Inr v, s'))"

definition read_p :: "('s \<Rightarrow> 'a result) \<Rightarrow> ('s, 'a) prog" where
  "read_p f = (\<lambda>s. (f s, s))"

text \<open>A program on the world, run inside a function that also has local variables.\<close>

definition inWorld :: "(world, 'a) prog \<Rightarrow> ('c \<times> world, 'a) prog" where
  "inWorld m = (\<lambda>(c, w). case m w of (r, w') \<Rightarrow> (r, (c, w')))"

definition modifyLocals :: "('c \<Rightarrow> 'c) \<Rightarrow> ('c \<times> world, unit) prog" where
  "modifyLocals f = (\<lambda>(c, w). (Inr (), (f c, w)))"

section \<open>DocGenerator.generateToFile, stageFile, saveCache as programs\<close>

text \<open>
  \<^verbatim>\<open>generateToFile\<close>: render, create the directory, write the file. The written file
  gets the current time as its modification time.
\<close>

definition generateToFile :: "ComponentMeta \<Rightarrow> string \<Rightarrow> bool \<Rightarrow> (world, unit) prog" where
  "generateToFile component outputPath useAI =
     (\<lambda>w. case docGenerate w component useAI of
             None \<Rightarrow> (Inl IOError, w)
           | Some markdown \<Rightarrow>
               if writable w outputPath
               then (Inr (), w\<lparr>files := (files w)(outputPath := Some markdown),
                                 mtimes := (mtimes w)(outputPath := Some (clock w))\<rparr>)
               else (Inl IOError, w))"

definition stageFile :: "string \<Rightarrow> (world, unit) prog" where
  "stageFile fp = (\<lambda>w. (if gitAdd w fp then Inr () else Inl GitError, w))"

definition saveCache_p :: "string \<Rightarrow> ComponentStructure \<Rightarrow> (world, unit) prog" where
  "saveCache_p fp struct = (\<lambda>w. (Inr (), saveCache w fp struct))"

definition readmePath :: "string \<Rightarrow> string" where
  "readmePath file = join (dirname file) ''README.md''"

section \<open>PreCommitHandler (git/pre-commit-handler.ts)\<close>

text \<open>
  The counters \<^verbatim>\<open>processed\<close>, \<^verbatim>\<open>skipped\<close>, \<^verbatim>\<open>errors\<close> are local variables of \<^verbatim>\<open>run\<close>, and
  the fields of its result. The \<^verbatim>\<open>duration\<close> field (elapsed wall-clock time) is left out.
\<close>

record PreCommitResult =
  processed :: nat
  skipped :: nat
  errors :: nat

definition zeroResult :: PreCommitResult where
  "zeroResult = \<lparr>processed = 0, skipped = 0, errors = 0\<rparr>"

text \<open>The body of the loop over the component files (lines 80 to 112), with its try and catch.\<close>

definition processFile :: "string \<Rightarrow> (PreCommitResult \<times> world, unit) prog" where
  "processFile file =
     catch_p
       (bind_p (inWorld (read_p (\<lambda>w. needsUpdate w file))) (\<lambda>stale.
          if stale then
            bind_p (inWorld (read_p (\<lambda>w. analyze w file))) (\<lambda>componentMeta.
            bind_p (inWorld (generateToFile componentMeta (readmePath file) False)) (\<lambda>u1.
            bind_p (inWorld (stageFile (readmePath file))) (\<lambda>u2.
            bind_p (inWorld (saveCache_p file
                      \<lparr>structName = name componentMeta, structProps = props componentMeta\<rparr>)) (\<lambda>u3.
            modifyLocals (\<lambda>c. c\<lparr>processed := processed c + 1\<rparr>)))))
          else modifyLocals (\<lambda>c. c\<lparr>skipped := skipped c + 1\<rparr>)))
       (\<lambda>err. modifyLocals (\<lambda>c. c\<lparr>errors := errors c + 1\<rparr>))"

fun forEachFile :: "string list \<Rightarrow> (PreCommitResult \<times> world, unit) prog" where
  "forEachFile [] = pure_p ()"
| "forEachFile (file # rest) = bind_p (processFile file) (\<lambda>u. forEachFile rest)"

text \<open>
  The filter on the watch patterns:
  \<^verbatim>\<open>new RegExp(pattern.replace(/\*\*/g, '.*').replace(/\*/g, '[^/]*')).test(file)\<close>.
\<close>

fun replaceStarStar :: "string \<Rightarrow> string" where
  "replaceStarStar (a # b # rest) =
     (if a = CHR ''*'' \<and> b = CHR ''*'' then ''.*'' @ replaceStarStar rest
      else a # replaceStarStar (b # rest))"
| "replaceStarStar s = s"

fun replaceStar :: "string \<Rightarrow> string" where
  "replaceStar [] = []"
| "replaceStar (a # rest) =
     (if a = CHR ''*'' then ''[^/]*'' @ replaceStar rest else a # replaceStar rest)"

definition globToRegExpSource :: "string \<Rightarrow> string" where
  "globToRegExpSource pattern = replaceStar (replaceStarStar pattern)"

fun somePatternMatches :: "world \<Rightarrow> string list \<Rightarrow> string \<Rightarrow> bool result" where
  "somePatternMatches w [] file = Inr False"
| "somePatternMatches w (pattern # rest) file =
     (case regExpTest w (globToRegExpSource pattern) file of
        None \<Rightarrow> Inl RegExpError
      | Some matched \<Rightarrow> if matched then Inr True else somePatternMatches w rest file)"

fun filterComponentFiles :: "world \<Rightarrow> string list \<Rightarrow> string list \<Rightarrow> string list result" where
  "filterComponentFiles w patterns [] = Inr []"
| "filterComponentFiles w patterns (file # rest) =
     await (somePatternMatches w patterns file) (\<lambda>keep.
       await (filterComponentFiles w patterns rest) (\<lambda>kept.
         Inr (if keep then file # kept else kept)))"

definition loadOrThrow :: "world \<Rightarrow> string list result" where
  "loadOrThrow w = (case configWatchPatterns w of None \<Rightarrow> Inl ConfigError | Some ps \<Rightarrow> Inr ps)"

definition getStagedFiles :: "world \<Rightarrow> string list result" where
  "getStagedFiles w = (case gitStagedFiles w of None \<Rightarrow> Inl GitError | Some fs \<Rightarrow> Inr fs)"

definition newProject :: "world \<Rightarrow> unit result" where
  "newProject w = (if tsconfigLoads w then Inr () else Inl IOError)"

definition runBody :: "(PreCommitResult \<times> world, PreCommitResult) prog" where
  "runBody =
     bind_p (inWorld (read_p loadOrThrow)) (\<lambda>watchPatterns.
     bind_p (inWorld (read_p getStagedFiles)) (\<lambda>stagedFiles.
       if stagedFiles = [] then pure_p zeroResult
       else
         bind_p (inWorld (read_p (\<lambda>w. filterComponentFiles w watchPatterns stagedFiles)))
           (\<lambda>componentFiles.
             if componentFiles = [] then pure_p zeroResult
             else
               bind_p (inWorld (read_p newProject)) (\<lambda>project.
               bind_p (inWorld (read_p newProject)) (\<lambda>analyzer.
               bind_p (forEachFile componentFiles) (\<lambda>u.
               (\<lambda>(c, w). (Inr c, (c, w)))))))))"

text \<open>
  \<^verbatim>\<open>run\<close>: the counters start at zero; the outer catch returns the counters as they are
  at the throw, with one more error.
\<close>

definition run :: "(world, PreCommitResult) prog" where
  "run = (\<lambda>w. case catch_p runBody
                      (\<lambda>err. (\<lambda>(c, w'). (Inr (c\<lparr>errors := errors c + 1\<rparr>), (c, w'))))
                      (zeroResult, w)
               of (r, (c, w')) \<Rightarrow> (r, w'))"

definition runSilent :: "(world, unit) prog" where
  "runSilent = catch_p (bind_p run (\<lambda>r. pure_p ())) (\<lambda>err. pure_p ())"

section \<open>The loop of the sync command (cli/commands/sync.ts, lines 95 to 124)\<close>

record SyncCounts =
  successCount :: nat
  errorCount :: nat

definition syncFile :: "bool \<Rightarrow> string \<Rightarrow> (SyncCounts \<times> world, unit) prog" where
  "syncFile useAI file =
     catch_p
       (bind_p (inWorld (read_p (\<lambda>w. analyze w file))) (\<lambda>componentMeta.
        bind_p (inWorld (generateToFile componentMeta (readmePath file) useAI)) (\<lambda>u1.
        bind_p (inWorld (saveCache_p file
                  \<lparr>structName = name componentMeta, structProps = props componentMeta\<rparr>)) (\<lambda>u2.
        modifyLocals (\<lambda>c. c\<lparr>successCount := successCount c + 1\<rparr>)))))
       (\<lambda>err. modifyLocals (\<lambda>c. c\<lparr>errorCount := errorCount c + 1\<rparr>))"

fun syncEachFile :: "bool \<Rightarrow> string list \<Rightarrow> (SyncCounts \<times> world, unit) prog" where
  "syncEachFile useAI [] = pure_p ()"
| "syncEachFile useAI (file # rest) = bind_p (syncFile useAI file) (\<lambda>u. syncEachFile useAI rest)"


section \<open>Notions used to state the properties\<close>

text \<open>
  The import list that \<^verbatim>\<open>extractImports\<close> resolves with: the local imports of the
  file as the project sees it now, and the empty list when the project throws.
\<close>

definition liveImports :: "world \<Rightarrow> string \<Rightarrow> string list" where
  "liveImports w fp =
     (case project w fp of None \<Rightarrow> [] | Some sf \<Rightarrow> collectImports (importDeclarations sf))"

text \<open>
  An import makes the loop of \<^verbatim>\<open>needsUpdate\<close> return true when it exists on disk and is
  either absent from the stored snapshot or modified after \<^verbatim>\<open>lastParsed\<close>.
\<close>

definition offending :: "world \<Rightarrow> CacheEntry \<Rightarrow> string \<Rightarrow> bool" where
  "offending w c imp =
     (case mtimes w imp of
        None \<Rightarrow> False
      | Some m \<Rightarrow> imp \<notin> path ` set (dependencies c) \<or> m > lastParsed c)"

text \<open>The world after \<^verbatim>\<open>fs.writeFile(p, md)\<close> of \<^verbatim>\<open>generateToFile\<close>.\<close>

definition writeReadme :: "world \<Rightarrow> string \<Rightarrow> string \<Rightarrow> world" where
  "writeReadme w p md =
     w\<lparr>files := (files w)(p := Some md), mtimes := (mtimes w)(p := Some (clock w))\<rparr>"

text \<open>
  \<open>sameBut P K w0 w\<close>: the world \<open>w\<close> is \<open>w0\<close> except for the files at the paths \<open>P\<close>
  and the cache files \<open>K\<close>.
\<close>

definition sameBut :: "string set \<Rightarrow> string set \<Rightarrow> world \<Rightarrow> world \<Rightarrow> bool" where
  "sameBut P K w0 w =
     ((\<forall>p. p \<notin> P \<longrightarrow> files w p = files w0 p \<and> mtimes w p = mtimes w0 p)
      \<and> (\<forall>k. k \<notin> K \<longrightarrow> cacheStore w k = cacheStore w0 k)
      \<and> project w = project w0 \<and> sha256 w = sha256 w0
      \<and> analyzerProject w = analyzerProject w0 \<and> docGenerate w = docGenerate w0
      \<and> writable w = writable w0 \<and> gitAdd w = gitAdd w0)"

text \<open>A file fails analysis when \<^verbatim>\<open>analyze\<close> throws for it.\<close>

definition failsAnalysis :: "world \<Rightarrow> string \<Rightarrow> bool" where
  "failsAnalysis w file = (case analyze w file of Inl e \<Rightarrow> True | Inr m \<Rightarrow> False)"

text \<open>A file is analyzable and its README can be generated and written.\<close>

definition docSucceeds :: "world \<Rightarrow> bool \<Rightarrow> string \<Rightarrow> bool" where
  "docSucceeds w useAI file =
     (case analyze w file of
        Inl e \<Rightarrow> False
      | Inr m \<Rightarrow> docGenerate w m useAI \<noteq> None \<and> writable w (readmePath file))"

text \<open>
  The files of a batch do not interfere: different files have different cache files,
  and the README written for one file is neither a file of the batch nor an import of one.
\<close>

definition independent :: "world \<Rightarrow> string set \<Rightarrow> bool" where
  "independent w U =
     (\<forall>f \<in> U. \<forall>g \<in> U.
        (f \<noteq> g \<longrightarrow> getCacheFilePath w f \<noteq> getCacheFilePath w g)
        \<and> readmePath f \<noteq> g
        \<and> readmePath f \<notin> set (liveImports w g))"

text \<open>
  The world in which the loop of the pre-commit handler reaches the next file, after
  it has gone through the files \<open>fs\<close>.
\<close>

definition worldAfter :: "world \<Rightarrow> string list \<Rightarrow> world" where
  "worldAfter w fs = snd (snd (forEachFile fs (zeroResult, w)))"

section \<open>The claimed staleness condition\<close>


section \<open>Example worlds\<close>

text \<open>
  A component \<^verbatim>\<open>Card.tsx\<close> that imports \<^verbatim>\<open>react\<close> and a local \<^verbatim>\<open>types.ts\<close>. In the
  examples the digest function is the identity, which is injective.
\<close>

definition cardFile :: string where "cardFile = ''/p/src/Card.tsx''"

definition typesFile :: string where "typesFile = ''/p/src/types.ts''"

definition cardSource :: SourceFile where
  "cardSource =
     \<lparr>exportedDeclarations = [''Card''],
      importDeclarations = [Some ''/p/node_modules/react/index.d.ts'', Some typesFile],
      interfaces = [\<lparr>ifaceName = ''CardProps'',
                     properties = [\<lparr>sigName = ''variant'', sigTypeText = ''Variant'',
                                    hasQuestionToken = False, jsDocs = []\<rparr>]\<rparr>],
      functionJsDocs = [],
      variableStatementJsDocs = [0]\<rparr>"

definition cardStructure :: ComponentStructure where
  "cardStructure = \<lparr>structName = ''Card'', structProps = []\<rparr>"

definition baseWorld :: world where
  "baseWorld =
     \<lparr>files = (\<lambda>p. if p = cardFile then Some ''card-v1''
                   else if p = typesFile then Some ''types-v1'' else None),
      mtimes = (\<lambda>p. if p = cardFile then Some 10 else if p = typesFile then Some 20 else None),
      cacheStore = (\<lambda>k. None),
      cacheWritable = True,
      clock = 100,
      project = (\<lambda>p. if p = cardFile then Some cardSource else None),
      sha256 = (\<lambda>x. x),
      analyzerProject = (\<lambda>p. if p = cardFile then Some cardSource else None),
      configWatchPatterns = Some [''src/**/*.tsx''],
      gitStagedFiles = Some [cardFile],
      regExpTest = (\<lambda>src s. Some True),
      tsconfigLoads = True,
      docGenerate = (\<lambda>m useAI. Some ''# doc''),
      writable = (\<lambda>p. True),
      gitAdd = (\<lambda>p. True)\<rparr>"

definition savedWorld :: world where
  "savedWorld = saveCache baseWorld cardFile cardStructure"

text \<open>
  \<^verbatim>\<open>Card.tsx\<close> is cached while its import of \<^verbatim>\<open>types.ts\<close> does not resolve (the file is
  not there yet); afterwards \<^verbatim>\<open>types.ts\<close> appears with a modification time of 20, before
  the \<^verbatim>\<open>lastParsed\<close> of the entry.
\<close>

definition unresolvedSource :: SourceFile where
  "unresolvedSource = cardSource\<lparr>importDeclarations := [Some ''/p/node_modules/react/index.d.ts'', None]\<rparr>"

definition beforeTypesWorld :: world where
  "beforeTypesWorld =
     baseWorld\<lparr>files := (files baseWorld)(typesFile := None),
               mtimes := (mtimes baseWorld)(typesFile := None),
               project := (\<lambda>p. if p = cardFile then Some unresolvedSource else None)\<rparr>"

definition snapshotMissWorld :: world where
  "snapshotMissWorld =
     (saveCache beforeTypesWorld cardFile cardStructure)
       \<lparr>files := files baseWorld, mtimes := mtimes baseWorld, project := project baseWorld\<rparr>"

definition parseErrorWorld :: world where
  "parseErrorWorld =
     savedWorld\<lparr>mtimes := (mtimes savedWorld)(typesFile := Some 500), project := (\<lambda>p. None)\<rparr>"

definition goneWorld :: world where
  "goneWorld = baseWorld\<lparr>files := (files baseWorld)(cardFile := None),
                          mtimes := (mtimes baseWorld)(cardFile := None),
                          project := (\<lambda>p. None)\<rparr>"

definition readOnlyCacheWorld :: world where
  "readOnlyCacheWorld = baseWorld\<lparr>cacheWritable := False\<rparr>"


definition laterWorld :: world where
  "laterWorld = savedWorld\<lparr>clock := 900, mtimes := (mtimes savedWorld)(''/p/src/Other.tsx'' := Some 800)\<rparr>"

definition futureMtimeWorld :: world where
  "futureMtimeWorld = baseWorld\<lparr>mtimes := (mtimes baseWorld)(typesFile := Some 250)\<rparr>"

definition missingDepWorld :: world where
  "missingDepWorld = baseWorld\<lparr>files := (files baseWorld)(typesFile := None),
                                mtimes := (mtimes baseWorld)(typesFile := None)\<rparr>"

text \<open>
  A batch of three staged component files; the analyzer's project throws for
  \<^verbatim>\<open>Broken.tsx\<close>, and nothing is cached yet.
\<close>

definition brokenFile :: string where "brokenFile = ''/p/src/broken/Broken.tsx''"

definition buttonFile :: string where "buttonFile = ''/p/src/button/Button.tsx''"

definition cardFile2 :: string where "cardFile2 = ''/p/src/card/Card.tsx''"

definition buttonSource :: SourceFile where
  "buttonSource =
     \<lparr>exportedDeclarations = [''default'', ''useButton'', ''Button'', ''ButtonGroup''],
      importDeclarations = [Some ''/p/node_modules/react/index.d.ts''],
      interfaces = [],
      functionJsDocs = [1],
      variableStatementJsDocs = []\<rparr>"

definition batchFiles :: "string list" where
  "batchFiles = [cardFile2, brokenFile, buttonFile]"

definition batchWorld :: world where
  "batchWorld =
     \<lparr>files = (\<lambda>p. if p \<in> set batchFiles then Some (''source of '' @ p) else None),
      mtimes = (\<lambda>p. if p \<in> set batchFiles then Some 10 else None),
      cacheStore = (\<lambda>k. None),
      cacheWritable = True,
      clock = 100,
      project = (\<lambda>p. if p = buttonFile then Some buttonSource else None),
      sha256 = (\<lambda>x. x),
      analyzerProject = (\<lambda>p. if p = buttonFile \<or> p = cardFile2 then Some buttonSource else None),
      configWatchPatterns = Some [''src/**/*.tsx''],
      gitStagedFiles = Some batchFiles,
      regExpTest = (\<lambda>src s. Some True),
      tsconfigLoads = True,
      docGenerate = (\<lambda>m useAI. Some ''# doc''),
      writable = (\<lambda>p. True),
      gitAdd = (\<lambda>p. True)\<rparr>"

text \<open>
  The same batch when \<^verbatim>\<open>git add\<close> fails, when the template engine throws, and when
  \<^verbatim>\<open>Broken.tsx\<close> has a cache entry that is still valid.
\<close>

definition noStageWorld :: world where
  "noStageWorld = batchWorld\<lparr>gitAdd := (\<lambda>p. False)\<rparr>"

definition noDocWorld :: world where
  "noDocWorld = batchWorld\<lparr>docGenerate := (\<lambda>m useAI. None)\<rparr>"

definition cachedBrokenWorld :: world where
  "cachedBrokenWorld =
     saveCache (batchWorld\<lparr>project := (\<lambda>p. if p = brokenFile \<or> p = buttonFile
                                             then Some buttonSource else None)\<rparr>)
       brokenFile \<lparr>structName = ''Broken'', structProps = []\<rparr>"

text \<open>
  Files for the analyzer: a Vue component and a \<^verbatim>\<open>.mts\<close> module without an upper-case
  export, and a component with two import declarations of the same module.
\<close>

definition vueFile :: string where "vueFile = ''/p/src/components/Button.vue''"

definition mtsFile :: string where "mtsFile = ''/p/src/utils/helpers.mts''"

definition helpersSource :: SourceFile where
  "helpersSource =
     \<lparr>exportedDeclarations = [''default'', ''formatDate''],
      importDeclarations = [],
      interfaces = [],
      functionJsDocs = [0],
      variableStatementJsDocs = []\<rparr>"

definition dupImportSource :: SourceFile where
  "dupImportSource =
     \<lparr>exportedDeclarations = [''MAX_ITEMS'', ''Card''],
      importDeclarations = [Some typesFile, Some ''/p/node_modules/react/index.d.ts'', None, Some typesFile],
      interfaces = [],
      functionJsDocs = [],
      variableStatementJsDocs = []\<rparr>"


section \<open>Basic facts about the cache manager\<close>

lemma hashFile_eq: "hashFile w fp = Inr (case files w fp of None \<Rightarrow> [] | Some c \<Rightarrow> sha256 w c)"
  by (simp add: hashFile_def try_catch_def await_def fs_readFile_def split: option.splits)

lemma loadCache_eq:
  "loadCache w fp = Inr (case cacheStore w (getCacheFilePath w fp) of
       None \<Rightarrow> None
     | Some c \<Rightarrow> if version c \<noteq> runningVersion then None else Some c)"
  by (simp add: loadCache_def try_catch_def await_def readCacheFile_def split: option.splits)

lemma extractImports_eq:
  "extractImports w fp = Inr (case project w fp of
       None \<Rightarrow> []
     | Some sf \<Rightarrow> collectImports (importDeclarations sf))"
  by (simp add: extractImports_def try_catch_def await_def getOrAddSourceFile_def split: option.splits)

lemma find_path_None: "(find (\<lambda>d. path d = imp) ds = None) = (imp \<notin> path ` set ds)"
  by (auto simp: find_None_iff)

lemma checkImports_eq:
  "checkImports w c imps = Inr (\<exists>imp \<in> set imps. offending w c imp)"
  by (induction imps) (auto simp: offending_def find_path_None split: option.splits)

lemma needsUpdate_eq:
  "needsUpdate w fp = Inr (case cacheStore w (getCacheFilePath w fp) of
       None \<Rightarrow> True
     | Some c \<Rightarrow> version c \<noteq> runningVersion
         \<or> hashFile w fp \<noteq> Inr (fileHash c)
         \<or> (\<exists>imp \<in> set (liveImports w fp). offending w c imp))"
  unfolding needsUpdate_def loadCache_eq extractImports_eq liveImports_def
  by (simp add: await_def try_catch_def hashFile_eq checkImports_eq split: option.splits)

lemma saveCache_eq:
  "saveCache w fp st =
     (if cacheWritable w then
        (case snapshotDependencies w (liveImports w fp) of
           Inl e \<Rightarrow> w
         | Inr deps \<Rightarrow> w\<lparr>cacheStore := (cacheStore w)(getCacheFilePath w fp :=
             Some \<lparr>fileHash = (case files w fp of None \<Rightarrow> [] | Some c \<Rightarrow> sha256 w c),
                   dependencies = deps, structure = st,
                   lastParsed = clock w, version = runningVersion\<rparr>)\<rparr>)
      else w)"
  by (simp add: saveCache_def saveCacheBody_def await_def fs_mkdirCache_def extractImports_eq
        hashFile_eq fs_writeCacheFile_def liveImports_def split: sum.splits)

lemma saveCache_fields:
  "files (saveCache w fp st) = files w"
  "mtimes (saveCache w fp st) = mtimes w"
  "project (saveCache w fp st) = project w"
  "sha256 (saveCache w fp st) = sha256 w"
  "analyzerProject (saveCache w fp st) = analyzerProject w"
  "docGenerate (saveCache w fp st) = docGenerate w"
  "writable (saveCache w fp st) = writable w"
  "gitAdd (saveCache w fp st) = gitAdd w"
  "clock (saveCache w fp st) = clock w"
  "cacheWritable (saveCache w fp st) = cacheWritable w"
  by (simp_all add: saveCache_eq split: sum.splits)

lemma saveCache_store_other:
  "k \<noteq> getCacheFilePath w fp \<Longrightarrow> cacheStore (saveCache w fp st) k = cacheStore w k"
  by (simp add: saveCache_eq split: sum.splits)

section \<open>Frame: what processing one file leaves untouched\<close>

lemma needsUpdate_frame:
  assumes "sameBut P K w0 w" "fp \<notin> P" "getCacheFilePath w0 fp \<notin> K" "set (liveImports w0 fp) \<inter> P = {}"
  shows "needsUpdate w fp = needsUpdate w0 fp"
proof -
  have k: "getCacheFilePath w fp = getCacheFilePath w0 fp"
    using assms(1) by (simp add: sameBut_def getCacheFilePath_def)
  have cs: "cacheStore w (getCacheFilePath w0 fp) = cacheStore w0 (getCacheFilePath w0 fp)"
    using assms(1,3) by (simp add: sameBut_def)
  have h: "hashFile w fp = hashFile w0 fp"
    using assms(1,2) by (simp add: hashFile_eq sameBut_def split: option.splits)
  have p: "liveImports w fp = liveImports w0 fp" using assms(1) by (simp add: sameBut_def liveImports_def)
  have o: "\<And>c imp. imp \<in> set (liveImports w0 fp) \<Longrightarrow> offending w c imp = offending w0 c imp"
  proof -
    fix c imp assume "imp \<in> set (liveImports w0 fp)"
    then have "imp \<notin> P" using assms(4) by blast
    then have "mtimes w imp = mtimes w0 imp" using assms(1) by (simp add: sameBut_def)
    then show "offending w c imp = offending w0 c imp" by (simp add: offending_def)
  qed
  have ex: "\<And>c. (\<exists>imp \<in> set (liveImports w0 fp). offending w c imp)
                = (\<exists>imp \<in> set (liveImports w0 fp). offending w0 c imp)"
    using o by blast
  show ?thesis
    by (simp only: needsUpdate_eq k cs h p ex)
qed

lemma analyze_frame: "sameBut P K w0 w \<Longrightarrow> analyze w fp = analyze w0 fp"
  by (simp add: analyze_def sameBut_def)

lemma sameBut_writeReadme:
  "sameBut P K w0 w \<Longrightarrow> sameBut (insert p P) K w0 (writeReadme w p md)"
  by (simp add: sameBut_def writeReadme_def)

lemma sameBut_mono: "sameBut P K w0 w \<Longrightarrow> P \<subseteq> P' \<Longrightarrow> K \<subseteq> K' \<Longrightarrow> sameBut P' K' w0 w"
  by (auto simp: sameBut_def)

lemma sameBut_refl: "sameBut {} {} w w"
  by (simp add: sameBut_def)

lemma sameBut_saveCache:
  assumes "sameBut P K w0 w"
  shows "sameBut P (insert (getCacheFilePath w0 fp) K) w0 (saveCache w fp st)"
proof -
  have k: "getCacheFilePath w fp = getCacheFilePath w0 fp"
    using assms by (simp add: sameBut_def getCacheFilePath_def)
  have "\<And>x. x \<notin> insert (getCacheFilePath w0 fp) K \<Longrightarrow> cacheStore (saveCache w fp st) x = cacheStore w0 x"
    using assms saveCache_store_other[of _ w fp st] unfolding k by (simp add: sameBut_def)
  then show ?thesis
    using assms unfolding sameBut_def saveCache_fields by blast
qed

section \<open>The loop of the pre-commit handler\<close>

lemma processFile_eq:
  "processFile file (c, w) =
     (case needsUpdate w file of
        Inl e \<Rightarrow> (Inr (), (c\<lparr>errors := errors c + 1\<rparr>, w))
      | Inr stale \<Rightarrow>
         if \<not> stale then (Inr (), (c\<lparr>skipped := skipped c + 1\<rparr>, w))
         else (case analyze w file of
            Inl e \<Rightarrow> (Inr (), (c\<lparr>errors := errors c + 1\<rparr>, w))
          | Inr m \<Rightarrow>
             (case docGenerate w m False of
                None \<Rightarrow> (Inr (), (c\<lparr>errors := errors c + 1\<rparr>, w))
              | Some md \<Rightarrow>
                  if \<not> writable w (readmePath file) then (Inr (), (c\<lparr>errors := errors c + 1\<rparr>, w))
                  else if \<not> gitAdd w (readmePath file)
                  then (Inr (), (c\<lparr>errors := errors c + 1\<rparr>, writeReadme w (readmePath file) md))
                  else (Inr (), (c\<lparr>processed := processed c + 1\<rparr>,
                          saveCache (writeReadme w (readmePath file) md) file
                            \<lparr>structName = name m, structProps = props m\<rparr>)))))"
  by (simp add: processFile_def catch_p_def bind_p_def inWorld_def read_p_def modifyLocals_def
        generateToFile_def stageFile_def saveCache_p_def writeReadme_def
      split: sum.splits option.splits)

lemma processFile_step:
  "\<exists>c1 w1. processFile f (c, w) = (Inr (), (c1, w1))
      \<and> processed c1 + skipped c1 + errors c1 = processed c + skipped c + errors c + 1"
  by (simp add: processFile_eq split: sum.splits option.splits)

lemma forEachFile_total:
  "\<exists>c' w'. forEachFile fs (c, w) = (Inr (), (c', w'))
      \<and> processed c' + skipped c' + errors c' = processed c + skipped c + errors c + length fs"
proof (induction fs arbitrary: c w)
  case Nil
  then show ?case by (simp add: pure_p_def)
next
  case (Cons f fs)
  obtain c1 w1 where s: "processFile f (c, w) = (Inr (), (c1, w1))"
    and n: "processed c1 + skipped c1 + errors c1 = processed c + skipped c + errors c + 1"
    using processFile_step by blast
  from Cons.IH[of c1 w1] obtain c' w' where
    "forEachFile fs (c1, w1) = (Inr (), (c', w'))"
    "processed c' + skipped c' + errors c' = processed c1 + skipped c1 + errors c1 + length fs"
    by blast
  with s n show ?case by (simp add: bind_p_def)
qed

text \<open>
  The counts for a batch of distinct files that do not interfere and are stale when
  the loop starts.
\<close>

lemma forEachFile_counts:
  assumes "sameBut (readmePath ` D) (getCacheFilePath w0 ` D) w0 w"
    and "distinct fs" and "set fs \<inter> D = {}" and "D \<union> set fs \<subseteq> U"
    and "independent w0 U"
    and "\<forall>f \<in> set fs. needsUpdate w0 f = Inr True"
    and "\<forall>f \<in> set fs. failsAnalysis w0 f \<or> (docSucceeds w0 False f \<and> gitAdd w0 (readmePath f))"
  shows "\<exists>w'. forEachFile fs (c, w) =
           (Inr (), (\<lparr>processed = processed c + length (filter (\<lambda>f. \<not> failsAnalysis w0 f) fs),
                      skipped = skipped c,
                      errors = errors c + length (filter (failsAnalysis w0) fs)\<rparr>, w'))"
  using assms
proof (induction fs arbitrary: c w D)
  case Nil
  then show ?case by (simp add: pure_p_def)
next
  case (Cons f fs)
  let ?P = "readmePath ` D" and ?K = "getCacheFilePath w0 ` D"
  have fU: "f \<in> U" and DU: "D \<subseteq> U" and fD: "f \<notin> D" using Cons.prems by auto
  have ind: "\<And>a b. a \<in> U \<Longrightarrow> b \<in> U \<Longrightarrow>
      (a \<noteq> b \<longrightarrow> getCacheFilePath w0 a \<noteq> getCacheFilePath w0 b)
      \<and> readmePath a \<noteq> b \<and> readmePath a \<notin> set (liveImports w0 b)"
    using Cons.prems(5) by (simp add: independent_def)
  have 1: "f \<notin> ?P" using ind fU DU by blast
  have 2: "getCacheFilePath w0 f \<notin> ?K" using ind fU DU fD by blast
  have 3: "set (liveImports w0 f) \<inter> ?P = {}" using ind fU DU by blast
  have nu: "needsUpdate w f = Inr True"
    using needsUpdate_frame[OF Cons.prems(1) 1 2 3] Cons.prems(6) by simp
  have an: "analyze w f = analyze w0 f" using analyze_frame[OF Cons.prems(1)] .
  have orc: "docGenerate w = docGenerate w0" "writable w = writable w0" "gitAdd w = gitAdd w0"
    using Cons.prems(1) by (simp_all add: sameBut_def)
  have rest: "distinct fs" "set fs \<inter> insert f D = {}" "insert f D \<union> set fs \<subseteq> U"
    "\<forall>g \<in> set fs. needsUpdate w0 g = Inr True"
    "\<forall>g \<in> set fs. failsAnalysis w0 g \<or> (docSucceeds w0 False g \<and> gitAdd w0 (readmePath g))"
    using Cons.prems by auto
  show ?case
  proof (cases "failsAnalysis w0 f")
    case True
    then have step: "processFile f (c, w) = (Inr (), (c\<lparr>errors := errors c + 1\<rparr>, w))"
      using nu an by (simp add: processFile_eq failsAnalysis_def split: sum.splits)
    have sb: "sameBut (readmePath ` insert f D) (getCacheFilePath w0 ` insert f D) w0 w"
      using Cons.prems(1) by (rule sameBut_mono) auto
    from Cons.IH[OF sb rest(1,2,3) Cons.prems(5) rest(4,5), of "c\<lparr>errors := errors c + 1\<rparr>"]
    show ?thesis using True step by (simp add: bind_p_def)
  next
    case False
    then have ok: "docSucceeds w0 False f" "gitAdd w0 (readmePath f)" using Cons.prems(7) by auto
    then obtain m md where m: "analyze w0 f = Inr m" "docGenerate w0 m False = Some md"
      "writable w0 (readmePath f)"
      by (auto simp: docSucceeds_def split: sum.splits)
    let ?w1 = "saveCache (writeReadme w (readmePath f) md) f \<lparr>structName = name m, structProps = props m\<rparr>"
    have step: "processFile f (c, w) = (Inr (), (c\<lparr>processed := processed c + 1\<rparr>, ?w1))"
      using nu an m ok orc by (simp add: processFile_eq)
    have sb: "sameBut (readmePath ` insert f D) (getCacheFilePath w0 ` insert f D) w0 ?w1"
      using sameBut_saveCache[OF sameBut_writeReadme[OF Cons.prems(1)]] by simp
    from Cons.IH[OF sb rest(1,2,3) Cons.prems(5) rest(4,5), of "c\<lparr>processed := processed c + 1\<rparr>"]
    show ?thesis using False step by (simp add: bind_p_def)
  qed
qed

text \<open>The counts for a batch whose files are stale when the loop reaches them.\<close>

lemma processFile_world:
  "fst (processFile f (c, w)) = Inr ()
   \<and> snd (snd (processFile f (c, w))) = snd (snd (processFile f (c', w)))"
  by (simp add: processFile_eq split: sum.splits option.splits)

lemma forEachFile_world:
  "snd (snd (forEachFile fs (c, w))) = snd (snd (forEachFile fs (c', w)))"
proof (induction fs arbitrary: c c' w)
  case Nil
  then show ?case by (simp add: pure_p_def)
next
  case (Cons f fs)
  obtain c1 w1 where s1: "processFile f (c, w) = (Inr (), (c1, w1))"
    using processFile_step by blast
  obtain c2 w2 where s2: "processFile f (c', w) = (Inr (), (c2, w2))"
    using processFile_step by blast
  have "w1 = w2" using processFile_world[of f c w c'] s1 s2 by simp
  then show ?case using s1 s2 Cons.IH[of c1 w1 c2] by (simp add: bind_p_def)
qed

lemma worldAfter_Cons:
  "processFile f (c, w) = (Inr (), (c1, w1)) \<Longrightarrow> worldAfter w (f # fs) = worldAfter w1 fs"
proof -
  assume a: "processFile f (c, w) = (Inr (), (c1, w1))"
  obtain c0 w0 where s: "processFile f (zeroResult, w) = (Inr (), (c0, w0))"
    using processFile_step by blast
  have "w0 = w1" using processFile_world[of f zeroResult w c] a s by simp
  then show ?thesis using s forEachFile_world[of fs c0 w1 zeroResult]
    by (simp add: worldAfter_def bind_p_def)
qed

lemma worldAfter_Nil: "worldAfter w [] = w"
  by (simp add: worldAfter_def pure_p_def)

lemma forEachFile_counts_reached:
  assumes "sameBut UNIV UNIV w0 w"
    and "\<forall>i < length fs. needsUpdate (worldAfter w (take i fs)) (fs ! i) = Inr True"
    and "\<forall>f \<in> set fs. failsAnalysis w0 f \<or> (docSucceeds w0 False f \<and> gitAdd w0 (readmePath f))"
  shows "\<exists>w'. forEachFile fs (c, w) =
           (Inr (), (\<lparr>processed = processed c + length (filter (\<lambda>f. \<not> failsAnalysis w0 f) fs),
                      skipped = skipped c,
                      errors = errors c + length (filter (failsAnalysis w0) fs)\<rparr>, w'))"
  using assms
proof (induction fs arbitrary: c w)
  case Nil
  then show ?case by (simp add: pure_p_def)
next
  case (Cons f fs)
  have nu: "needsUpdate w f = Inr True"
    using Cons.prems(2)[rule_format, of 0] by (simp add: worldAfter_Nil)
  have an: "analyze w f = analyze w0 f" using analyze_frame[OF Cons.prems(1)] .
  have orc: "docGenerate w = docGenerate w0" "writable w = writable w0" "gitAdd w = gitAdd w0"
    using Cons.prems(1) by (simp_all add: sameBut_def)
  have rest: "\<forall>g \<in> set fs. failsAnalysis w0 g \<or> (docSucceeds w0 False g \<and> gitAdd w0 (readmePath g))"
    using Cons.prems(3) by simp
  have reach: "\<forall>i < length fs. needsUpdate (worldAfter w1 (take i fs)) (fs ! i) = Inr True"
    if "processFile f (c, w) = (Inr (), (c1, w1))" for c1 w1
  proof (intro allI impI)
    fix i assume "i < length fs"
    then have "needsUpdate (worldAfter w (take (Suc i) (f # fs))) ((f # fs) ! Suc i) = Inr True"
      using Cons.prems(2) by auto
    then show "needsUpdate (worldAfter w1 (take i fs)) (fs ! i) = Inr True"
      using worldAfter_Cons[OF that] by simp
  qed
  show ?case
  proof (cases "failsAnalysis w0 f")
    case True
    then have step: "processFile f (c, w) = (Inr (), (c\<lparr>errors := errors c + 1\<rparr>, w))"
      using nu an by (simp add: processFile_eq failsAnalysis_def split: sum.splits)
    from Cons.IH[OF Cons.prems(1) reach[OF step] rest, of "c\<lparr>errors := errors c + 1\<rparr>"]
    show ?thesis using True step by (simp add: bind_p_def)
  next
    case False
    then have ok: "docSucceeds w0 False f" "gitAdd w0 (readmePath f)" using Cons.prems(3) by auto
    then obtain m md where m: "analyze w0 f = Inr m" "docGenerate w0 m False = Some md"
      "writable w0 (readmePath f)"
      by (auto simp: docSucceeds_def split: sum.splits)
    let ?w1 = "saveCache (writeReadme w (readmePath f) md) f \<lparr>structName = name m, structProps = props m\<rparr>"
    have step: "processFile f (c, w) = (Inr (), (c\<lparr>processed := processed c + 1\<rparr>, ?w1))"
      using nu an m ok orc by (simp add: processFile_eq)
    have "sameBut (insert (readmePath f) UNIV) (insert (getCacheFilePath w0 f) UNIV) w0 ?w1"
      by (rule sameBut_saveCache[OF sameBut_writeReadme[OF Cons.prems(1)]])
    then have sb: "sameBut UNIV UNIV w0 ?w1" by simp
    from Cons.IH[OF sb reach[OF step] rest, of "c\<lparr>processed := processed c + 1\<rparr>"]
    show ?thesis using False step by (simp add: bind_p_def)
  qed
qed

section \<open>The loop of the sync command, and totality of the handler\<close>

lemma syncFile_eq:
  "syncFile useAI file (c, w) =
     (case analyze w file of
        Inl e \<Rightarrow> (Inr (), (c\<lparr>errorCount := errorCount c + 1\<rparr>, w))
      | Inr m \<Rightarrow>
         (case docGenerate w m useAI of
            None \<Rightarrow> (Inr (), (c\<lparr>errorCount := errorCount c + 1\<rparr>, w))
          | Some md \<Rightarrow>
              if \<not> writable w (readmePath file) then (Inr (), (c\<lparr>errorCount := errorCount c + 1\<rparr>, w))
              else (Inr (), (c\<lparr>successCount := successCount c + 1\<rparr>,
                      saveCache (writeReadme w (readmePath file) md) file
                        \<lparr>structName = name m, structProps = props m\<rparr>))))"
  by (simp add: syncFile_def catch_p_def bind_p_def inWorld_def read_p_def modifyLocals_def
        generateToFile_def saveCache_p_def writeReadme_def
      split: sum.splits option.splits)

lemma syncFile_step:
  "\<exists>c1 w1. syncFile useAI f (c, w) = (Inr (), (c1, w1))
      \<and> successCount c1 + errorCount c1 = successCount c + errorCount c + 1"
  by (simp add: syncFile_eq split: sum.splits option.splits)

lemma syncEachFile_total:
  "\<exists>c' w'. syncEachFile useAI fs (c, w) = (Inr (), (c', w'))
      \<and> successCount c' + errorCount c' = successCount c + errorCount c + length fs"
proof (induction fs arbitrary: c w)
  case Nil
  then show ?case by (simp add: pure_p_def)
next
  case (Cons f fs)
  obtain c1 w1 where s: "syncFile useAI f (c, w) = (Inr (), (c1, w1))"
    and n: "successCount c1 + errorCount c1 = successCount c + errorCount c + 1"
    using syncFile_step by blast
  from Cons.IH[of c1 w1] obtain c' w' where
    "syncEachFile useAI fs (c1, w1) = (Inr (), (c', w'))"
    "successCount c' + errorCount c' = successCount c1 + errorCount c1 + length fs"
    by blast
  with s n show ?case by (simp add: bind_p_def)
qed

lemma syncEachFile_counts:
  assumes "sameBut UNIV UNIV w0 w"
    and "\<forall>f \<in> set fs. failsAnalysis w0 f \<or> docSucceeds w0 useAI f"
  shows "\<exists>w'. syncEachFile useAI fs (c, w) =
           (Inr (), (\<lparr>successCount = successCount c + length (filter (\<lambda>f. \<not> failsAnalysis w0 f) fs),
                      errorCount = errorCount c + length (filter (failsAnalysis w0) fs)\<rparr>, w'))"
  using assms
proof (induction fs arbitrary: c w)
  case Nil
  then show ?case by (simp add: pure_p_def)
next
  case (Cons f fs)
  have an: "analyze w f = analyze w0 f" using analyze_frame[OF Cons.prems(1)] .
  have orc: "docGenerate w = docGenerate w0" "writable w = writable w0"
    using Cons.prems(1) by (simp_all add: sameBut_def)
  have rest: "\<forall>g \<in> set fs. failsAnalysis w0 g \<or> docSucceeds w0 useAI g"
    using Cons.prems(2) by simp
  show ?case
  proof (cases "failsAnalysis w0 f")
    case True
    then have step: "syncFile useAI f (c, w) = (Inr (), (c\<lparr>errorCount := errorCount c + 1\<rparr>, w))"
      using an by (simp add: syncFile_eq failsAnalysis_def split: sum.splits)
    from Cons.IH[OF Cons.prems(1) rest, of "c\<lparr>errorCount := errorCount c + 1\<rparr>"]
    show ?thesis using True step by (simp add: bind_p_def)
  next
    case False
    then have "docSucceeds w0 useAI f" using Cons.prems(2) by auto
    then obtain m md where m: "analyze w0 f = Inr m" "docGenerate w0 m useAI = Some md"
      "writable w0 (readmePath f)"
      by (auto simp: docSucceeds_def split: sum.splits)
    let ?w1 = "saveCache (writeReadme w (readmePath f) md) f \<lparr>structName = name m, structProps = props m\<rparr>"
    have step: "syncFile useAI f (c, w) = (Inr (), (c\<lparr>successCount := successCount c + 1\<rparr>, ?w1))"
      using an m orc by (simp add: syncFile_eq)
    have "sameBut (insert (readmePath f) UNIV) (insert (getCacheFilePath w0 f) UNIV) w0 ?w1"
      by (rule sameBut_saveCache[OF sameBut_writeReadme[OF Cons.prems(1)]])
    then have sb: "sameBut UNIV UNIV w0 ?w1" by simp
    from Cons.IH[OF sb rest, of "c\<lparr>successCount := successCount c + 1\<rparr>"]
    show ?thesis using False step by (simp add: bind_p_def)
  qed
qed

lemma catch_all_total:
  assumes "\<And>e s. \<exists>v s'. handler e s = (Inr v, s')"
  shows "\<exists>v s'. catch_p m handler s = (Inr v, s')"
proof (cases "m s")
  case (Pair r s1)
  then show ?thesis using assms[of _ s1] by (cases r) (auto simp: catch_p_def)
qed

lemma run_total: "\<exists>r w'. run w = (Inr r, w')"
proof -
  have "\<exists>v s'. catch_p runBody
          (\<lambda>err. (\<lambda>(c, w'). (Inr (c\<lparr>errors := errors c + 1\<rparr>), (c, w')))) (zeroResult, w) = (Inr v, s')"
    by (rule catch_all_total) (simp add: split_beta)
  then show ?thesis by (auto simp: run_def split: prod.splits)
qed

lemma runSilent_total: "\<exists>w'. runSilent w = (Inr (), w')"
proof -
  obtain r w' where "run w = (Inr r, w')" using run_total by blast
  then show ?thesis by (simp add: runSilent_def catch_p_def bind_p_def pure_p_def)
qed

lemma run_reaches_loop:
  assumes "configWatchPatterns w = Some pats" and "gitStagedFiles w = Some batch"
    and "batch \<noteq> []" and "filterComponentFiles w pats batch = Inr batch" and "tsconfigLoads w"
    and "forEachFile batch (zeroResult, w) = (Inr (), (c, w'))"
  shows "run w = (Inr c, w')"
  using assms
  by (simp add: run_def runBody_def catch_p_def bind_p_def inWorld_def read_p_def pure_p_def
      loadOrThrow_def getStagedFiles_def newProject_def)

section \<open>Basic facts about the analyzer\<close>




lemma default_not_upper: "\<not> startsWithUpper ''default''"
  by (simp add: startsWithUpper_def)

lemma firstComponentExport_first:
  assumes "startsWithUpper n" and "\<forall>x \<in> set pre. \<not> startsWithUpper x"
  shows "firstComponentExport (pre @ n # post) = Some n"
  using assms default_not_upper by (induction pre) auto

lemma firstComponentExport_none:
  "\<forall>x \<in> set xs. \<not> startsWithUpper x \<Longrightarrow> firstComponentExport xs = None"
  by (induction xs) auto

lemma endsWith_rev: "endsWith s suf = (take (length suf) (rev s) = rev suf)"
proof
  assume "endsWith s suf"
  then show "take (length suf) (rev s) = rev suf"
    by (simp add: endsWith_def take_rev)
next
  assume a: "take (length suf) (rev s) = rev suf"
  have "length suf \<le> length s"
    using arg_cong[OF a, of length] by simp
  moreover have "rev (drop (length s - length suf) s) = rev suf"
    using a by (simp add: take_rev)
  ultimately show "endsWith s suf" by (simp add: endsWith_def)
qed

lemma stripSourceExtension_known:
  assumes "ext \<in> {''.ts'', ''.tsx'', ''.js'', ''.jsx''}"
  shows "stripSourceExtension (stem @ ext) = stem"
  using assms by (auto simp: stripSourceExtension_def endsWith_rev)

lemma stripSourceExtension_other:
  assumes "\<not> endsWith s ''.ts''" "\<not> endsWith s ''.tsx''" "\<not> endsWith s ''.js''" "\<not> endsWith s ''.jsx''"
  shows "stripSourceExtension s = s"
  using assms by (simp add: stripSourceExtension_def)

section \<open>Properties of the cache manager\<close>

lemma checkImports_skips_missing:
  "checkImports w c imps = checkImports w c (filter (\<lambda>imp. mtimes w imp \<noteq> None) imps)"
  by (induction imps) (auto split: option.splits)

lemma needsUpdate_after_delete:
  assumes "d \<noteq> fp" and "needsUpdate w fp = Inr False"
  shows "needsUpdate (w\<lparr>files := (files w)(d := None), mtimes := (mtimes w)(d := None)\<rparr>) fp = Inr False"
proof -
  let ?w' = "w\<lparr>files := (files w)(d := None), mtimes := (mtimes w)(d := None)\<rparr>"
  have k: "getCacheFilePath ?w' fp = getCacheFilePath w fp" by (simp add: getCacheFilePath_def)
  have h: "hashFile ?w' fp = hashFile w fp" using assms(1) by (simp add: hashFile_eq split: option.splits)
  have l: "liveImports ?w' fp = liveImports w fp" by (simp add: liveImports_def)
  have o: "\<And>c imp. offending ?w' c imp \<Longrightarrow> offending w c imp"
    by (simp add: offending_def split: if_splits)
  from assms(2) obtain c where c: "cacheStore w (getCacheFilePath w fp) = Some c"
    and v: "version c = runningVersion" and hc: "hashFile w fp = Inr (fileHash c)"
    and no: "\<forall>imp \<in> set (liveImports w fp). \<not> offending w c imp"
    by (auto simp: needsUpdate_eq split: option.splits)
  have "\<forall>imp \<in> set (liveImports w fp). \<not> offending ?w' c imp" using no o by blast
  then show ?thesis using c v hc by (simp add: needsUpdate_eq k h l)
qed

lemma snapshotDependencies_ok:
  assumes "\<forall>imp \<in> set imps. mtimes w imp \<noteq> None"
  shows "\<exists>deps. snapshotDependencies w imps = Inr deps \<and> map path deps = imps"
  using assms
proof (induction imps)
  case Nil
  then show ?case by simp
next
  case (Cons imp imps)
  then obtain deps where d: "snapshotDependencies w imps = Inr deps" "map path deps = imps"
    by auto
  from Cons.prems obtain m where m: "mtimes w imp = Some m" by auto
  show ?case using d m by (simp add: await_def fs_stat_def hashFile_eq)
qed




text \<open>
  C2 (as amended). If the cache directory can be written and every live direct
  dependency exists on disk with a modification time not after the clock at save time,
  then \<^verbatim>\<open>needsUpdate\<close> returns false right after \<^verbatim>\<open>saveCache\<close>, and it returns false in
  every later world in which the saved entry is still stored, \<^verbatim>\<open>hashFile\<close> gives the same
  digest for the file, the live import list is the same and the imports have the same
  modification times.
\<close>

theorem saveCache_then_needsUpdate:
  assumes writable: "cacheWritable w"
    and deps_old: "\<forall>imp \<in> set (liveImports w fp). \<exists>m. mtimes w imp = Some m \<and> m \<le> clock w"
    and same_entry: "cacheStore w' (getCacheFilePath w' fp)
                       = cacheStore (saveCache w fp st) (getCacheFilePath w fp)"
    and same_bytes: "hashFile w' fp = hashFile w fp"
    and same_imports: "extractImports w' fp = extractImports w fp"
    and same_mtimes: "\<forall>imp \<in> set (liveImports w fp). mtimes w' imp = mtimes w imp"
  shows "needsUpdate (saveCache w fp st) fp = Inr False \<and> needsUpdate w' fp = Inr False"
proof -
  have "\<forall>imp \<in> set (liveImports w fp). mtimes w imp \<noteq> None" using deps_old by auto
  then obtain deps where d: "snapshotDependencies w (liveImports w fp) = Inr deps"
    and dp: "map path deps = liveImports w fp"
    using snapshotDependencies_ok by blast
  let ?e = "\<lparr>fileHash = (case files w fp of None \<Rightarrow> [] | Some c \<Rightarrow> sha256 w c),
             dependencies = deps, structure = st, lastParsed = clock w, version = runningVersion\<rparr>"
  let ?s = "saveCache w fp st"
  have stored: "cacheStore ?s (getCacheFilePath w fp) = Some ?e"
    using writable d by (simp add: saveCache_eq)
  have paths: "path ` set deps = set (liveImports w fp)"
    using dp by (metis set_map)
  have general: "needsUpdate v fp = Inr False"
    if e: "cacheStore v (getCacheFilePath v fp) = Some ?e"
      and h: "hashFile v fp = hashFile w fp"
      and i: "liveImports v fp = liveImports w fp"
      and t: "\<forall>imp \<in> set (liveImports w fp). mtimes v imp = mtimes w imp"
    for v
  proof -
    have "\<not> offending v ?e imp" if "imp \<in> set (liveImports w fp)" for imp
    proof -
      from that deps_old obtain m where "mtimes w imp = Some m" "m \<le> clock w" by blast
      with that t paths show ?thesis by (simp add: offending_def)
    qed
    then show ?thesis using e h i by (simp add: needsUpdate_eq hashFile_eq)
  qed
  have a: "needsUpdate ?s fp = Inr False"
  proof (rule general)
    show "cacheStore ?s (getCacheFilePath ?s fp) = Some ?e"
      using stored by (simp add: getCacheFilePath_def saveCache_fields)
    show "hashFile ?s fp = hashFile w fp" by (simp add: hashFile_eq saveCache_fields split: option.splits)
    show "liveImports ?s fp = liveImports w fp" by (simp add: liveImports_def saveCache_fields)
    show "\<forall>imp \<in> set (liveImports w fp). mtimes ?s imp = mtimes w imp"
      by (simp add: saveCache_fields)
  qed
  have b: "needsUpdate w' fp = Inr False"
  proof (rule general)
    show "cacheStore w' (getCacheFilePath w' fp) = Some ?e" using same_entry stored by simp
    show "hashFile w' fp = hashFile w fp" by (rule same_bytes)
    show "liveImports w' fp = liveImports w fp"
      using same_imports by (simp add: extractImports_eq liveImports_def)
    show "\<forall>imp \<in> set (liveImports w fp). mtimes w' imp = mtimes w imp" by (rule same_mtimes)
  qed
  from a b show ?thesis by simp
qed

text \<open>The amended C2 at the example: the cached \<^verbatim>\<open>Card.tsx\<close>, later, nothing touched.\<close>

theorem saveCache_then_needsUpdate_witness:
  "cacheWritable baseWorld
   \<and> liveImports baseWorld cardFile = [typesFile]
   \<and> mtimes baseWorld typesFile = Some 20 \<and> (20::int) \<le> clock baseWorld
   \<and> cacheStore laterWorld (getCacheFilePath laterWorld cardFile)
        = cacheStore (saveCache baseWorld cardFile cardStructure) (getCacheFilePath baseWorld cardFile)
   \<and> hashFile laterWorld cardFile = hashFile baseWorld cardFile
   \<and> extractImports laterWorld cardFile = extractImports baseWorld cardFile
   \<and> mtimes laterWorld typesFile = mtimes baseWorld typesFile
   \<and> needsUpdate (saveCache baseWorld cardFile cardStructure) cardFile = Inr False
   \<and> needsUpdate laterWorld cardFile = Inr False"
proof -
  have 1: "cacheWritable baseWorld" by code_simp
  have l: "liveImports baseWorld cardFile = [typesFile]" by code_simp
  have m: "mtimes baseWorld typesFile = Some 20" by code_simp
  have c: "(20::int) \<le> clock baseWorld" by code_simp
  have 2: "\<forall>imp \<in> set (liveImports baseWorld cardFile). \<exists>m. mtimes baseWorld imp = Some m \<and> m \<le> clock baseWorld"
    unfolding l using m c by simp
  have 3: "cacheStore laterWorld (getCacheFilePath laterWorld cardFile)
        = cacheStore (saveCache baseWorld cardFile cardStructure) (getCacheFilePath baseWorld cardFile)"
    by code_simp
  have 4: "hashFile laterWorld cardFile = hashFile baseWorld cardFile" by code_simp
  have 5: "extractImports laterWorld cardFile = extractImports baseWorld cardFile" by code_simp
  have t: "mtimes laterWorld typesFile = mtimes baseWorld typesFile" by code_simp
  have 6: "\<forall>imp \<in> set (liveImports baseWorld cardFile). mtimes laterWorld imp = mtimes baseWorld imp"
    unfolding l using t by simp
  from saveCache_then_needsUpdate[OF 1 2 3 4 5 6] 1 l m c 3 4 5 t
  show ?thesis by blast
qed

text \<open>
  C2 as stated fails: with a dependency whose modification time is after the clock at
  save time, with a cache directory that cannot be written, and with a dependency that
  the project resolves but that is missing on disk (the save then writes nothing),
  \<^verbatim>\<open>needsUpdate\<close> returns true right after \<^verbatim>\<open>saveCache\<close> although nothing changed in
  between.
\<close>

theorem saveCache_then_needsUpdate_counterexample:
  "needsUpdate (saveCache futureMtimeWorld cardFile cardStructure) cardFile = Inr True
   \<and> needsUpdate (saveCache readOnlyCacheWorld cardFile cardStructure) cardFile = Inr True
   \<and> needsUpdate (saveCache missingDepWorld cardFile cardStructure) cardFile = Inr True
   \<and> cacheStore (saveCache missingDepWorld cardFile cardStructure)
        (getCacheFilePath missingDepWorld cardFile) = None"
  by code_simp

text \<open>
  C3 (the code departs from it). The project throws while the imports of the cached
  \<^verbatim>\<open>Card.tsx\<close> are re-derived, and its dependency was modified after \<^verbatim>\<open>lastParsed\<close>:
  \<^verbatim>\<open>extractImports\<close> swallows the error and returns the empty list, and \<^verbatim>\<open>needsUpdate\<close>
  returns false. With the project working, it returns true. Likewise for a file that
  can be neither read nor parsed, at save time and afterwards: \<^verbatim>\<open>needsUpdate\<close> returns
  false after \<^verbatim>\<open>saveCache\<close>.
\<close>

theorem needsUpdate_parse_error_trusts_cache:
  "getOrAddSourceFile (project parseErrorWorld) cardFile = Inl ParseError
   \<and> extractImports parseErrorWorld cardFile = Inr []
   \<and> needsUpdate parseErrorWorld cardFile = Inr False
   \<and> needsUpdate (parseErrorWorld\<lparr>project := project baseWorld\<rparr>) cardFile = Inr True
   \<and> fs_readFile goneWorld cardFile = Inl IOError
   \<and> getOrAddSourceFile (project goneWorld) cardFile = Inl ParseError
   \<and> needsUpdate (saveCache goneWorld cardFile cardStructure) cardFile = Inr False"
  by code_simp

text \<open>
  C4. A dependency that is missing on disk is skipped by the dependency check of
  \<^verbatim>\<open>needsUpdate\<close>: the check gives the same result with the missing imports removed from
  the list; and deleting a file other than the cached file itself never turns the
  answer of \<^verbatim>\<open>needsUpdate\<close> from false into true.
\<close>

theorem missing_dependency_skipped:
  "checkImports w c imps = checkImports w c (filter (\<lambda>imp. mtimes w imp \<noteq> None) imps)
   \<and> (d \<noteq> fp \<and> needsUpdate w fp = Inr False \<longrightarrow>
        needsUpdate (w\<lparr>files := (files w)(d := None), mtimes := (mtimes w)(d := None)\<rparr>) fp = Inr False)"
  using checkImports_skips_missing needsUpdate_after_delete by blast

text \<open>C4 at the example: \<^verbatim>\<open>types.ts\<close>, tracked in the snapshot of \<^verbatim>\<open>Card.tsx\<close>, is deleted.\<close>

theorem missing_dependency_skipped_witness:
  "typesFile \<noteq> cardFile
   \<and> typesFile \<in> path ` set (dependencies (the (cacheStore savedWorld (getCacheFilePath savedWorld cardFile))))
   \<and> needsUpdate savedWorld cardFile = Inr False
   \<and> needsUpdate (savedWorld\<lparr>files := (files savedWorld)(typesFile := None),
                               mtimes := (mtimes savedWorld)(typesFile := None)\<rparr>) cardFile = Inr False"
proof -
  have 1: "typesFile \<noteq> cardFile" by code_simp
  have 2: "needsUpdate savedWorld cardFile = Inr False" by code_simp
  have 3: "typesFile \<in> path ` set (dependencies (the (cacheStore savedWorld (getCacheFilePath savedWorld cardFile))))"
    by code_simp
  from missing_dependency_skipped[of savedWorld _ _ typesFile cardFile] 1 2 3 show ?thesis by blast
qed

text \<open>
  C7 (as amended). \<^verbatim>\<open>hashFile\<close> never fails: for a path whose bytes cannot be read it
  returns the empty string, and for a readable file the digest of its bytes.
\<close>

theorem hashFile_returns_digest:
  "(files w fp = None \<longrightarrow> hashFile w fp = Inr [])
   \<and> (\<forall>content. files w fp = Some content \<longrightarrow> hashFile w fp = Inr (sha256 w content))
   \<and> (\<forall>e. hashFile w fp \<noteq> Inl e)"
  by (simp add: hashFile_eq)

text \<open>The amended C7 at an unreadable path and at a readable file.\<close>

theorem hashFile_returns_digest_witness:
  "files baseWorld ''/p/src/Gone.tsx'' = None
   \<and> hashFile baseWorld ''/p/src/Gone.tsx'' = Inr []
   \<and> files baseWorld cardFile = Some ''card-v1''
   \<and> hashFile baseWorld cardFile = Inr (sha256 baseWorld ''card-v1'')"
  using hashFile_returns_digest[of baseWorld "''/p/src/Gone.tsx''"]
        hashFile_returns_digest[of baseWorld cardFile]
  by (simp add: baseWorld_def cardFile_def typesFile_def)

text \<open>
  C7 as stated fails: the read of the path fails with an I/O error, and \<^verbatim>\<open>hashFile\<close>
  returns a value instead of failing.
\<close>

theorem hashFile_unreadable_counterexample:
  "fs_readFile baseWorld ''/p/src/Gone.tsx'' = Inl IOError
   \<and> hashFile baseWorld ''/p/src/Gone.tsx'' \<noteq> Inl IOError
   \<and> (\<exists>digest. hashFile baseWorld ''/p/src/Gone.tsx'' = Inr digest)"
  by (simp add: hashFile_eq fs_readFile_def baseWorld_def cardFile_def typesFile_def)

text \<open>
  C10. For a cached file whose stored digest still matches, a live import that exists
  on disk and is absent from the stored dependency snapshot makes \<^verbatim>\<open>needsUpdate\<close> return
  true, whatever its modification time.
\<close>

theorem snapshot_miss_forces_update:
  assumes "loadCache w fp = Inr (Some c)"
    and "hashFile w fp = Inr (fileHash c)"
    and "extractImports w fp = Inr imps"
    and "imp \<in> set imps"
    and "mtimes w imp = Some m"
    and "imp \<notin> path ` set (dependencies c)"
  shows "needsUpdate w fp = Inr True"
proof -
  have st: "cacheStore w (getCacheFilePath w fp) = Some c"
    using assms(1) by (simp add: loadCache_eq split: option.splits if_splits)
  have li: "imp \<in> set (liveImports w fp)"
    using assms(3,4) by (simp add: extractImports_eq liveImports_def)
  have "offending w c imp" using assms(5,6) by (simp add: offending_def)
  with st li show ?thesis by (auto simp: needsUpdate_eq)
qed

text \<open>
  C10 at the example: \<^verbatim>\<open>types.ts\<close> was modified at 20, before \<^verbatim>\<open>lastParsed\<close> = 100,
  and is not in the snapshot.
\<close>

theorem snapshot_miss_forces_update_witness:
  "loadCache snapshotMissWorld cardFile
      = Inr (Some \<lparr>fileHash = ''card-v1'', dependencies = [], structure = cardStructure,
                    lastParsed = 100, version = runningVersion\<rparr>)
   \<and> hashFile snapshotMissWorld cardFile = Inr ''card-v1''
   \<and> extractImports snapshotMissWorld cardFile = Inr [typesFile]
   \<and> mtimes snapshotMissWorld typesFile = Some 20
   \<and> (20::int) \<le> 100
   \<and> needsUpdate snapshotMissWorld cardFile = Inr True"
proof -
  let ?c = "\<lparr>fileHash = ''card-v1'', dependencies = [], structure = cardStructure,
                    lastParsed = 100, version = runningVersion\<rparr>"
  have 1: "loadCache snapshotMissWorld cardFile = Inr (Some ?c)" by code_simp
  have 2: "hashFile snapshotMissWorld cardFile = Inr (fileHash ?c)" by code_simp
  have 3: "extractImports snapshotMissWorld cardFile = Inr [typesFile]" by code_simp
  have 4: "typesFile \<in> set [typesFile]" by simp
  have 5: "mtimes snapshotMissWorld typesFile = Some 20" by code_simp
  have 6: "typesFile \<notin> path ` set (dependencies ?c)" by simp
  from snapshot_miss_forces_update[OF 1 2 3 4 5 6] 1 2 3 5 show ?thesis by simp
qed

section \<open>Properties of the batch run\<close>

text \<open>
  C5 (as amended). The loop attempts every file of the batch and returns normally: the
  three counters add up to the number of files. If exactly one file of the batch fails
  analysis, every file of the batch, the failing one included, is stale when the loop
  reaches it, and for each of the other files the README is generated, written and
  staged without error, then the loop of the pre-commit handler ends with
  \<^verbatim>\<open>errors = 1\<close>, \<^verbatim>\<open>processed = N - 1\<close> and \<^verbatim>\<open>skipped = 0\<close>, and so does \<^verbatim>\<open>run\<close> when the
  batch is the list of staged files that match the watch patterns. The loop of the sync
  command, which checks no staleness and stages nothing, ends with \<^verbatim>\<open>errorCount = 1\<close>
  and \<^verbatim>\<open>successCount = N - 1\<close> when the README of each other file is generated and
  written without error.
\<close>

theorem batch_isolation:
  assumes "length (filter (failsAnalysis w) batch) = 1"
  shows "(\<exists>c' w'. forEachFile batch (zeroResult, w) = (Inr (), (c', w'))
            \<and> processed c' + skipped c' + errors c' = length batch)
       \<and> ((\<forall>i < length batch. needsUpdate (worldAfter w (take i batch)) (batch ! i) = Inr True)
            \<and> (\<forall>f \<in> set batch. \<not> failsAnalysis w f \<longrightarrow>
                   docSucceeds w False f \<and> gitAdd w (readmePath f))
          \<longrightarrow> (\<exists>w'. forEachFile batch (zeroResult, w)
                  = (Inr (), (\<lparr>processed = length batch - 1, skipped = 0, errors = 1\<rparr>, w')))
              \<and> (configWatchPatterns w = Some pats \<and> gitStagedFiles w = Some batch
                   \<and> filterComponentFiles w pats batch = Inr batch \<and> tsconfigLoads w
                 \<longrightarrow> (\<exists>w'. run w
                        = (Inr \<lparr>processed = length batch - 1, skipped = 0, errors = 1\<rparr>, w'))))
       \<and> ((\<forall>f \<in> set batch. \<not> failsAnalysis w f \<longrightarrow> docSucceeds w useAI f)
          \<longrightarrow> (\<exists>w'. syncEachFile useAI batch (\<lparr>successCount = 0, errorCount = 0\<rparr>, w)
                  = (Inr (), (\<lparr>successCount = length batch - 1, errorCount = 1\<rparr>, w'))))"
proof (intro conjI impI)
  show "\<exists>c' w'. forEachFile batch (zeroResult, w) = (Inr (), (c', w'))
            \<and> processed c' + skipped c' + errors c' = length batch"
    using forEachFile_total[of batch zeroResult w] by (simp add: zeroResult_def)
next
  have "length (filter (failsAnalysis w) batch) + length (filter (\<lambda>f. \<not> failsAnalysis w f) batch)
          = length batch"
    by (rule sum_length_filter_compl)
  then have cnt: "length (filter (\<lambda>f. \<not> failsAnalysis w f) batch) = length batch - 1"
    using assms by simp
  have su: "sameBut UNIV UNIV w w" by (simp add: sameBut_def)
  {
    assume h: "(\<forall>i < length batch. needsUpdate (worldAfter w (take i batch)) (batch ! i) = Inr True)
            \<and> (\<forall>f \<in> set batch. \<not> failsAnalysis w f \<longrightarrow>
                   docSucceeds w False f \<and> gitAdd w (readmePath f))"
    have h2: "\<forall>i < length batch. needsUpdate (worldAfter w (take i batch)) (batch ! i) = Inr True"
      using h by blast
    have h3: "\<forall>f \<in> set batch. failsAnalysis w f \<or> (docSucceeds w False f \<and> gitAdd w (readmePath f))"
      using h by blast
    from forEachFile_counts_reached[OF su h2 h3, of zeroResult]
    obtain w1 where pre: "forEachFile batch (zeroResult, w)
        = (Inr (), (\<lparr>processed = length batch - 1, skipped = 0, errors = 1\<rparr>, w1))"
      using cnt assms by (auto simp: zeroResult_def)
    then show "\<exists>w'. forEachFile batch (zeroResult, w)
                  = (Inr (), (\<lparr>processed = length batch - 1, skipped = 0, errors = 1\<rparr>, w'))"
      by blast
    assume g: "configWatchPatterns w = Some pats \<and> gitStagedFiles w = Some batch
                   \<and> filterComponentFiles w pats batch = Inr batch \<and> tsconfigLoads w"
    have ne: "batch \<noteq> []" using assms by auto
    have "run w = (Inr \<lparr>processed = length batch - 1, skipped = 0, errors = 1\<rparr>, w1)"
      using g by (intro run_reaches_loop[OF _ _ ne _ _ pre]) auto
    then show "\<exists>w'. run w = (Inr \<lparr>processed = length batch - 1, skipped = 0, errors = 1\<rparr>, w')"
      by blast
  }
  {
    assume h: "\<forall>f \<in> set batch. \<not> failsAnalysis w f \<longrightarrow> docSucceeds w useAI f"
    have h2: "\<forall>f \<in> set batch. failsAnalysis w f \<or> docSucceeds w useAI f"
      using h by auto
    from syncEachFile_counts[OF su h2, of "\<lparr>successCount = 0, errorCount = 0\<rparr>"]
    show "\<exists>w'. syncEachFile useAI batch (\<lparr>successCount = 0, errorCount = 0\<rparr>, w)
        = (Inr (), (\<lparr>successCount = length batch - 1, errorCount = 1\<rparr>, w'))"
      using cnt assms by auto
  }
qed

text \<open>The amended C5 at the example batch: three files, \<^verbatim>\<open>Broken.tsx\<close> fails analysis.\<close>

theorem batch_isolation_witness:
  "length batchFiles = 3
   \<and> filter (failsAnalysis batchWorld) batchFiles = [brokenFile]
   \<and> list_all (\<lambda>i. needsUpdate (worldAfter batchWorld (take i batchFiles)) (batchFiles ! i) = Inr True)
        [0, 1, 2]
   \<and> docSucceeds batchWorld False cardFile2 \<and> docSucceeds batchWorld False buttonFile
   \<and> gitAdd batchWorld (readmePath cardFile2) \<and> gitAdd batchWorld (readmePath buttonFile)
   \<and> configWatchPatterns batchWorld = Some [''src/**/*.tsx'']
   \<and> gitStagedFiles batchWorld = Some batchFiles
   \<and> filterComponentFiles batchWorld [''src/**/*.tsx''] batchFiles = Inr batchFiles
   \<and> tsconfigLoads batchWorld
   \<and> fst (snd (forEachFile batchFiles (zeroResult, batchWorld)))
        = \<lparr>processed = 2, skipped = 0, errors = 1\<rparr>
   \<and> fst (run batchWorld) = Inr \<lparr>processed = 2, skipped = 0, errors = 1\<rparr>
   \<and> fst (snd (syncEachFile False batchFiles (\<lparr>successCount = 0, errorCount = 0\<rparr>, batchWorld)))
        = \<lparr>successCount = 2, errorCount = 1\<rparr>"
proof -
  have n: "length batchFiles = 3" by code_simp
  have fl: "filter (failsAnalysis batchWorld) batchFiles = [brokenFile]" by code_simp
  then have 1: "length (filter (failsAnalysis batchWorld) batchFiles) = 1" by simp
  have 4: "list_all (\<lambda>i. needsUpdate (worldAfter batchWorld (take i batchFiles)) (batchFiles ! i) = Inr True)
        [0, 1, 2]" by code_simp
  have 5: "docSucceeds batchWorld False cardFile2" "docSucceeds batchWorld False buttonFile"
    "gitAdd batchWorld (readmePath cardFile2)" "gitAdd batchWorld (readmePath buttonFile)"
    by code_simp+
  have 7: "configWatchPatterns batchWorld = Some [''src/**/*.tsx'']"
    "gitStagedFiles batchWorld = Some batchFiles"
    "filterComponentFiles batchWorld [''src/**/*.tsx''] batchFiles = Inr batchFiles"
    "tsconfigLoads batchWorld"
    by code_simp+
  have fb: "failsAnalysis batchWorld brokenFile" by code_simp
  have s: "set batchFiles = {cardFile2, brokenFile, buttonFile}" by (auto simp: batchFiles_def)
  have a: "\<forall>i < length batchFiles.
             needsUpdate (worldAfter batchWorld (take i batchFiles)) (batchFiles ! i) = Inr True"
  proof (intro allI impI)
    fix i assume "i < length batchFiles"
    then have "i = 0 \<or> i = 1 \<or> i = 2" using n by auto
    then show "needsUpdate (worldAfter batchWorld (take i batchFiles)) (batchFiles ! i) = Inr True"
      using 4 by auto
  qed
  have b: "\<forall>f \<in> set batchFiles. \<not> failsAnalysis batchWorld f \<longrightarrow>
             docSucceeds batchWorld False f \<and> gitAdd batchWorld (readmePath f)"
    unfolding s using 5 fb by auto
  have c: "\<forall>f \<in> set batchFiles. \<not> failsAnalysis batchWorld f \<longrightarrow> docSucceeds batchWorld False f"
    using b by blast
  note t = batch_isolation[OF 1, of "[''src/**/*.tsx'']" False]
  from t a b obtain w1 where
    "forEachFile batchFiles (zeroResult, batchWorld)
       = (Inr (), (\<lparr>processed = length batchFiles - 1, skipped = 0, errors = 1\<rparr>, w1))"
    by blast
  then have r1: "fst (snd (forEachFile batchFiles (zeroResult, batchWorld)))
        = \<lparr>processed = 2, skipped = 0, errors = 1\<rparr>" using n by simp
  from t a b 7 obtain w2 where
    "run batchWorld = (Inr \<lparr>processed = length batchFiles - 1, skipped = 0, errors = 1\<rparr>, w2)"
    by blast
  then have r2: "fst (run batchWorld) = Inr \<lparr>processed = 2, skipped = 0, errors = 1\<rparr>"
    using n by simp
  from t c obtain w3 where
    "syncEachFile False batchFiles (\<lparr>successCount = 0, errorCount = 0\<rparr>, batchWorld)
        = (Inr (), (\<lparr>successCount = length batchFiles - 1, errorCount = 1\<rparr>, w3))"
    by blast
  then have r3: "fst (snd (syncEachFile False batchFiles (\<lparr>successCount = 0, errorCount = 0\<rparr>, batchWorld)))
        = \<lparr>successCount = 2, errorCount = 1\<rparr>" using n by simp
  from n fl 4 5 7 r1 r2 r3 show ?thesis by blast
qed

text \<open>
  C5 as stated fails. In each of the three worlds exactly one file of the batch fails
  analysis and the other two are stale and analyzable. When \<^verbatim>\<open>git add\<close> fails, and when
  the template engine throws, every file ends in the catch of the loop body and the
  run reports \<^verbatim>\<open>errors = 3\<close>, \<^verbatim>\<open>processed = 0\<close>. When the failing file has a valid cache
  entry it is skipped, and the run reports \<^verbatim>\<open>errors = 0\<close>, \<^verbatim>\<open>skipped = 1\<close>.
\<close>

theorem batch_isolation_counterexample:
  "filter (failsAnalysis noStageWorld) batchFiles = [brokenFile]
   \<and> list_all (\<lambda>f. needsUpdate noStageWorld f = Inr True) batchFiles
   \<and> list_all (\<lambda>i. needsUpdate (worldAfter noStageWorld (take i batchFiles)) (batchFiles ! i) = Inr True)
        [0, 1, 2]
   \<and> fst (run noStageWorld) = Inr \<lparr>processed = 0, skipped = 0, errors = 3\<rparr>
   \<and> filter (failsAnalysis noDocWorld) batchFiles = [brokenFile]
   \<and> list_all (\<lambda>f. needsUpdate noDocWorld f = Inr True) batchFiles
   \<and> fst (run noDocWorld) = Inr \<lparr>processed = 0, skipped = 0, errors = 3\<rparr>
   \<and> fst (snd (syncEachFile False batchFiles (\<lparr>successCount = 0, errorCount = 0\<rparr>, noDocWorld)))
        = \<lparr>successCount = 0, errorCount = 3\<rparr>
   \<and> filter (failsAnalysis cachedBrokenWorld) batchFiles = [brokenFile]
   \<and> needsUpdate cachedBrokenWorld cardFile2 = Inr True
   \<and> needsUpdate cachedBrokenWorld buttonFile = Inr True
   \<and> needsUpdate cachedBrokenWorld brokenFile = Inr False
   \<and> fst (run cachedBrokenWorld) = Inr \<lparr>processed = 2, skipped = 1, errors = 0\<rparr>"
  by code_simp

text \<open>
  C6. \<^verbatim>\<open>runSilent\<close> returns normally in every world, and so does \<^verbatim>\<open>run\<close>: no
  exception reaches the caller.
\<close>

theorem runSilent_never_throws:
  "fst (runSilent w) = Inr () \<and> (\<exists>r. fst (run w) = Inr r)"
proof -
  obtain r w1 where "run w = (Inr r, w1)" using run_total by blast
  moreover obtain w2 where "runSilent w = (Inr (), w2)" using runSilent_total by blast
  ultimately show ?thesis by simp
qed

text \<open>
  C6 at the examples: no staged file, no configuration, no cache directory, and a
  file that fails to parse.
\<close>

theorem runSilent_never_throws_witness:
  "fst (runSilent (batchWorld\<lparr>gitStagedFiles := Some []\<rparr>)) = Inr ()
   \<and> fst (runSilent (batchWorld\<lparr>configWatchPatterns := None\<rparr>)) = Inr ()
   \<and> fst (runSilent (batchWorld\<lparr>cacheStore := (\<lambda>k. None), cacheWritable := False\<rparr>)) = Inr ()
   \<and> failsAnalysis batchWorld brokenFile \<and> fst (runSilent batchWorld) = Inr ()"
proof -
  have "failsAnalysis batchWorld brokenFile" by code_simp
  then show ?thesis
    using runSilent_never_throws[of "batchWorld\<lparr>gitStagedFiles := Some []\<rparr>"]
      runSilent_never_throws[of "batchWorld\<lparr>configWatchPatterns := None\<rparr>"]
      runSilent_never_throws[of "batchWorld\<lparr>cacheStore := (\<lambda>k. None), cacheWritable := False\<rparr>"]
      runSilent_never_throws[of batchWorld]
    by blast
qed

section \<open>Properties of the analyzer\<close>




text \<open>
  What \<^verbatim>\<open>extractComponentName\<close> computes from the list of exported names that the
  parser gives: the first name that passes \<^verbatim>\<open>/^[A-Z]/\<close>; without such a name, the base
  name with a trailing \<^verbatim>\<open>.ts\<close>, \<^verbatim>\<open>.tsx\<close>, \<^verbatim>\<open>.js\<close> or \<^verbatim>\<open>.jsx\<close> removed, and the whole base
  name when it has another ending.
\<close>

lemma extractComponentName_rule:
  "(exportedDeclarations sf = pre @ n # post \<and> startsWithUpper n
       \<and> (\<forall>x \<in> set pre. \<not> startsWithUpper x)
     \<longrightarrow> extractComponentName sf fp = n)
   \<and> ((\<forall>x \<in> set (exportedDeclarations sf). \<not> startsWithUpper x)
        \<and> basename fp = stem @ ext \<and> ext \<in> {''.ts'', ''.tsx'', ''.js'', ''.jsx''}
     \<longrightarrow> extractComponentName sf fp = stem)
   \<and> ((\<forall>x \<in> set (exportedDeclarations sf). \<not> startsWithUpper x)
        \<and> \<not> endsWith (basename fp) ''.ts'' \<and> \<not> endsWith (basename fp) ''.tsx''
        \<and> \<not> endsWith (basename fp) ''.js'' \<and> \<not> endsWith (basename fp) ''.jsx''
     \<longrightarrow> extractComponentName sf fp = basename fp)"
proof (intro conjI impI)
  assume "exportedDeclarations sf = pre @ n # post \<and> startsWithUpper n
       \<and> (\<forall>x \<in> set pre. \<not> startsWithUpper x)"
  then show "extractComponentName sf fp = n"
    by (simp add: extractComponentName_def firstComponentExport_first)
next
  assume a: "(\<forall>x \<in> set (exportedDeclarations sf). \<not> startsWithUpper x)
        \<and> basename fp = stem @ ext \<and> ext \<in> {''.ts'', ''.tsx'', ''.js'', ''.jsx''}"
  then have "firstComponentExport (exportedDeclarations sf) = None"
    by (simp add: firstComponentExport_none)
  moreover have "stripSourceExtension (stem @ ext) = stem"
    using a by (intro stripSourceExtension_known) simp
  ultimately show "extractComponentName sf fp = stem"
    using a by (simp add: extractComponentName_def)
next
  assume a: "(\<forall>x \<in> set (exportedDeclarations sf). \<not> startsWithUpper x)
        \<and> \<not> endsWith (basename fp) ''.ts'' \<and> \<not> endsWith (basename fp) ''.tsx''
        \<and> \<not> endsWith (basename fp) ''.js'' \<and> \<not> endsWith (basename fp) ''.jsx''"
  then have "firstComponentExport (exportedDeclarations sf) = None"
    by (simp add: firstComponentExport_none)
  then show "extractComponentName sf fp = basename fp"
    using a by (simp add: extractComponentName_def stripSourceExtension_other)
qed

text \<open>Three examples, one for each case.\<close>

lemma extractComponentName_rule_examples:
  "exportedDeclarations buttonSource = [''default'', ''useButton''] @ ''Button'' # [''ButtonGroup'']
   \<and> startsWithUpper ''Button''
   \<and> \<not> startsWithUpper ''default'' \<and> \<not> startsWithUpper ''useButton''
   \<and> extractComponentName buttonSource ''/p/src/button/Button.tsx'' = ''Button''
   \<and> \<not> startsWithUpper ''formatDate''
   \<and> basename ''/p/src/utils/helpers.ts'' = ''helpers'' @ ''.ts''
   \<and> extractComponentName helpersSource ''/p/src/utils/helpers.ts'' = ''helpers''
   \<and> \<not> endsWith (basename vueFile) ''.ts'' \<and> \<not> endsWith (basename vueFile) ''.tsx''
   \<and> \<not> endsWith (basename vueFile) ''.js'' \<and> \<not> endsWith (basename vueFile) ''.jsx''
   \<and> extractComponentName helpersSource vueFile = basename vueFile"
proof -
  have 1: "exportedDeclarations buttonSource = [''default'', ''useButton''] @ ''Button'' # [''ButtonGroup'']"
    by code_simp
  have 2: "startsWithUpper ''Button''" "\<not> startsWithUpper ''default''" "\<not> startsWithUpper ''useButton''"
    "\<not> startsWithUpper ''formatDate''"
    by code_simp+
  have 3: "\<forall>x \<in> set [''default'', ''useButton'']. \<not> startsWithUpper x" using 2 by simp
  have 4: "\<forall>x \<in> set (exportedDeclarations helpersSource). \<not> startsWithUpper x"
    using 2 by (simp add: helpersSource_def)
  have 5: "basename ''/p/src/utils/helpers.ts'' = ''helpers'' @ ''.ts''" by code_simp
  have 6: "\<not> endsWith (basename vueFile) ''.ts''" "\<not> endsWith (basename vueFile) ''.tsx''"
    "\<not> endsWith (basename vueFile) ''.js''" "\<not> endsWith (basename vueFile) ''.jsx''"
    by code_simp+
  have a: "extractComponentName buttonSource ''/p/src/button/Button.tsx'' = ''Button''"
    using extractComponentName_rule[of buttonSource "[''default'', ''useButton'']" "''Button''"
        "[''ButtonGroup'']" "''/p/src/button/Button.tsx''"] 1 2 3 by blast
  have b: "extractComponentName helpersSource ''/p/src/utils/helpers.ts'' = ''helpers''"
    using extractComponentName_rule[of helpersSource _ _ _ "''/p/src/utils/helpers.ts''" "''helpers''" "''.ts''"]
      4 5 by blast
  have c: "extractComponentName helpersSource vueFile = basename vueFile"
    using extractComponentName_rule[of helpersSource _ _ _ vueFile] 4 6 by blast
  from 1 2 5 6 a b c show ?thesis by blast
qed

text \<open>
  C9 (the code departs from it). The comment in the code says
  \<^verbatim>\<open>Fallback to filename without extension\<close>, and for \<^verbatim>\<open>helpers.ts\<close> the fallback
  gives \<^verbatim>\<open>helpers\<close>; but the pattern removes only \<^verbatim>\<open>.ts\<close>, \<^verbatim>\<open>.tsx\<close>, \<^verbatim>\<open>.js\<close> and \<^verbatim>\<open>.jsx\<close>,
  so for \<^verbatim>\<open>Button.vue\<close> and \<^verbatim>\<open>helpers.mts\<close>, files without an exported name that starts
  with an upper-case letter, the name keeps the extension. The comment on the test of
  the exported names says \<^verbatim>\<open>PascalCase\<close>, and the test \<^verbatim>\<open>/^[A-Z]/\<close> accepts the constant
  \<^verbatim>\<open>MAX_ITEMS\<close> that is exported before the component \<^verbatim>\<open>Card\<close>.
\<close>

theorem extractComponentName_keeps_extension:
  "firstComponentExport (exportedDeclarations helpersSource) = None
   \<and> extractComponentName helpersSource ''/p/src/utils/helpers.ts'' = ''helpers''
   \<and> extractComponentName helpersSource vueFile = ''Button.vue''
   \<and> extractComponentName helpersSource mtsFile = ''helpers.mts''
   \<and> exportedDeclarations dupImportSource = [''MAX_ITEMS'', ''Card'']
   \<and> extractComponentName dupImportSource cardFile = ''MAX_ITEMS''"
  by code_simp

end
